theory Spec2Isabelle
  imports Complex_Main
begin

section \<open>Strings\<close>

text \<open>
  JavaScript strings are modelled as \<^typ>\<open>string\<close>, one \<^typ>\<open>char\<close> per code unit
  (so the model covers the code units \<open>0..255\<close>). \<open>String.prototype.startsWith\<close> and
  \<open>String.prototype.includes\<close> (here \<open>includesStr\<close>) are case-sensitive comparisons of code units.
\<close>

fun startsWith :: "string \<Rightarrow> string \<Rightarrow> bool" where
  "startsWith s [] = True"
| "startsWith [] (c # cs) = False"
| "startsWith (x # xs) (c # cs) = (x = c \<and> startsWith xs cs)"

fun includesStr :: "string \<Rightarrow> string \<Rightarrow> bool" where
  "includesStr [] t = (t = [])"
| "includesStr (x # xs) t = (startsWith (x # xs) t \<or> includesStr xs t)"


section \<open>The resilient RPC client (\<open>services/geminiService.ts\<close>)\<close>

text \<open>
  A value thrown by the wrapped call is represented by the text that \<open>e.toString()\<close>
  returns for it (for an \<open>Error\<close> object that is \<open>name: message\<close>). Thrown values are
  objects, hence truthy, as the declared type \<open>Error | null\<close> of \<open>lastError\<close> says.
\<close>

datatype thrown = Thrown (toString: string)

definition MAX_RETRIES :: nat where
  "MAX_RETRIES = 3"

text \<open>The test of the \<open>catch\<close> block of \<open>withRetry\<close>.\<close>

definition isRetriable :: "thrown \<Rightarrow> bool" where
  "isRetriable e = (includesStr (toString e) ''overloaded'' \<or> includesStr (toString e) ''UNAVAILABLE'')"

text \<open>
  What one run of \<open>withRetry\<close> does: the value returned or the value thrown, the number
  of times \<open>apiCall\<close> was invoked, and the back-off delays (in ms) it waited for.
\<close>

record 'a retry_run =
  outcome :: "thrown + 'a"
  attempts :: nat
  waits :: "real list"

text \<open>
  The \<open>for\<close> loop of \<open>withRetry\<close>. The operation is an effectful call: \<open>apiCall n\<close> is
  what its invocation number \<open>n\<close> (counted from 0) does, \<open>Inr\<close> a resolved value and
  \<open>Inl\<close> a rejection. \<open>random i\<close> is the value of \<open>Math.random()\<close> drawn in iteration \<open>i\<close>.
\<close>

function withRetry_loop ::
  "(nat \<Rightarrow> thrown + 'a) \<Rightarrow> (nat \<Rightarrow> real) \<Rightarrow> nat \<Rightarrow> thrown option \<Rightarrow> nat \<Rightarrow> real list
     \<Rightarrow> 'a retry_run" where
  "withRetry_loop apiCall random i lastError calls ws =
     (if i < MAX_RETRIES then
        (case apiCall calls of
           Inr v \<Rightarrow> \<lparr>outcome = Inr v, attempts = calls + 1, waits = ws\<rparr>
         | Inl e \<Rightarrow>
             if isRetriable e
             then withRetry_loop apiCall random (i + 1) (Some e) (calls + 1)
                    (ws @ [2 ^ i * 1000 + random i * 1000])
             else \<lparr>outcome = Inl e, attempts = calls + 1, waits = ws\<rparr>)
      else \<lparr>outcome = Inl (case lastError of
                              Some e \<Rightarrow> e
                            | None \<Rightarrow> Thrown ''Error: API call failed after multiple retries.''),
            attempts = calls, waits = ws\<rparr>)"
  by pat_completeness auto
termination
  by (relation "measure (\<lambda>(apiCall, random, i, lastError, calls, ws). MAX_RETRIES - i)") auto

definition withRetry :: "(nat \<Rightarrow> thrown + 'a) \<Rightarrow> (nat \<Rightarrow> real) \<Rightarrow> 'a retry_run" where
  "withRetry apiCall random = withRetry_loop apiCall random 0 None 0 []"

text \<open>
  The classification of a transient signal in the words of the specification: the error
  text contains \<open>overloaded\<close> or \<open>unavailable\<close>.
\<close>

definition spec_transient :: "thrown \<Rightarrow> bool" where
  "spec_transient e = (includesStr (toString e) ''overloaded'' \<or> includesStr (toString e) ''unavailable'')"

text \<open>An operation that is rejected twice with a lower-case \<open>unavailable\<close> text and then resolves.\<close>

definition unavailable_error :: thrown where
  "unavailable_error = Thrown ''Error: service unavailable''"

fun unavailable_twice :: "nat \<Rightarrow> thrown + nat" where
  "unavailable_twice n = (if n < 2 then Inl unavailable_error else Inr 42)"

fun no_jitter :: "nat \<Rightarrow> real" where
  "no_jitter i = 0"

text \<open>An operation that is rejected twice with the status text \<open>UNAVAILABLE\<close> and then resolves.\<close>

fun overloaded_twice :: "nat \<Rightarrow> thrown + nat" where
  "overloaded_twice n =
     (if n < 2 then Inl (Thrown ''Error: 503 UNAVAILABLE: The model is overloaded.'') else Inr 42)"

text \<open>An operation that is rejected once, with a text that is not classified as retriable.\<close>

fun denied_once :: "nat \<Rightarrow> thrown + nat" where
  "denied_once n = (if n < 1 then Inl (Thrown ''Error: 403 PERMISSION_DENIED'') else Inr 42)"

text \<open>An operation that is always rejected; the text names the invocation.\<close>

fun always_overloaded :: "nat \<Rightarrow> thrown + nat" where
  "always_overloaded n =
     Inl (Thrown (if n = 0 then ''Error: overloaded (first)''
                  else if n = 1 then ''Error: overloaded (second)''
                  else ''Error: overloaded (third)''))"


section \<open>The data model (\<open>types.ts\<close>)\<close>

datatype RideStatus = IDLE | SEARCHING | CONFIRMED | PAID | COMPLETED | ERROR

datatype VehicleType = BIKE | AUTO | CAR

record RideDetails =
  driverName :: string
  driverPhotoUrl :: string
  driverBio :: string
  vehicleModel :: string
  licensePlate :: string
  eta :: string
  fare :: string

datatype PaymentType = CARD | CASH | GOOGLE_PAY | PHONE_PE

record PaymentMethod =
  method_id :: string
  method_type :: PaymentType
  brand :: "string option"
  last4 :: "string option"

record FareEstimate =
  estimatedFare :: string

text \<open>The object \<open>{pickup, destination, ...rideDetails}\<close> handed to \<open>onRideComplete\<close>.\<close>

record RideCompletion =
  ride_pickup :: string
  ride_destination :: string
  ride_details :: RideDetails


section \<open>The state of the booking view (\<open>components/BookingView.tsx\<close>)\<close>

datatype CancellationStep = step_idle | step_confirm | step_reason

text \<open>
  \<open>driverPosition\<close> holds two percentages; the source keeps them as texts such as
  \<open>40%\<close> and reads them back with \<open>parseFloat\<close>, the model keeps the numbers.
\<close>

record Position =
  pos_top :: real
  pos_left :: real

text \<open>
  The state that the handlers of \<open>BookingView\<close> read and write: the form values owned by
  \<open>App\<close> and passed down as props (\<open>pickup\<close>, \<open>destination\<close>, \<open>vehicle\<close>,
  \<open>passengerCount\<close>, \<open>paymentMethods\<close>), the \<open>useState\<close> cells of the component, and
  the two outward collaborators as the lists of what they have received: \<open>toasts\<close> for
  the calls of \<open>showToast\<close> and \<open>completedRides\<close> for the calls of \<open>onRideComplete\<close>.
  The selected history entry is represented by its id. The cells \<open>isMapVisible\<close>,
  \<open>suggestions\<close>, \<open>isLoadingSuggestions\<close> and \<open>loadingMessage\<close> are written by none of
  the handlers below and are left out, as is the console.
\<close>

record booking =
  pickup :: string
  destination :: string
  vehicle :: VehicleType
  passengerCount :: int
  paymentMethods :: "PaymentMethod list"
  rideStatus :: RideStatus
  rideDetails :: "RideDetails option"
  error :: "string option"
  payingMethodId :: "string option"
  isShowingHistory :: bool
  selectedRide :: "string option"
  driverPosition :: Position
  cancellationStep :: CancellationStep
  cancellationReason :: string
  fareEstimate :: "FareEstimate option"
  isEstimating :: bool
  dynamicEta :: "int option"
  rideTrackingLink :: "string option"
  isShareModalOpen :: bool
  isGPayModalOpen :: bool
  toasts :: "string list"
  completedRides :: "RideCompletion list"

text \<open>The state of a freshly mounted view, with the form values \<open>App\<close> starts from.\<close>

definition initial_booking :: "PaymentMethod list \<Rightarrow> booking" where
  "initial_booking pms =
     \<lparr>pickup = [], destination = [], vehicle = CAR, passengerCount = 1,
      paymentMethods = pms,
      rideStatus = IDLE, rideDetails = None, error = None, payingMethodId = None,
      isShowingHistory = False, selectedRide = None,
      driverPosition = \<lparr>pos_top = 40, pos_left = 60\<rparr>,
      cancellationStep = step_idle, cancellationReason = [],
      fareEstimate = None, isEstimating = False, dynamicEta = None,
      rideTrackingLink = None, isShareModalOpen = False, isGPayModalOpen = False,
      toasts = [], completedRides = []\<rparr>"

definition CANCELLATION_REASONS :: "string list" where
  "CANCELLATION_REASONS =
     [''Driver is too far'', ''Changed my mind'', ''Booked by mistake'',
      ''Longer wait time than expected'', ''Found another ride'']"

definition showToast :: "string \<Rightarrow> booking \<Rightarrow> booking" where
  "showToast message b = b\<lparr>toasts := toasts b @ [message]\<rparr>"

definition onRideComplete :: "RideCompletion \<Rightarrow> booking \<Rightarrow> booking" where
  "onRideComplete ride b = b\<lparr>completedRides := completedRides b @ [ride]\<rparr>"


subsection \<open>The passenger clamp\<close>

definition maxPassengers :: "VehicleType \<Rightarrow> int" where
  "maxPassengers v = (if v = BIKE then 1 else if v = AUTO then 4 else 4)"

text \<open>The effect with the dependencies \<open>[vehicle, passengerCount, setPassengerCount]\<close>.\<close>

definition clampPassengers :: "booking \<Rightarrow> booking" where
  "clampPassengers b =
     (if passengerCount b > maxPassengers (vehicle b)
      then b\<lparr>passengerCount := maxPassengers (vehicle b)\<rparr> else b)"

text \<open>A change of vehicle: \<open>setVehicle v\<close>, then the effect that the changed dependency runs.\<close>

definition setVehicle :: "VehicleType \<Rightarrow> booking \<Rightarrow> booking" where
  "setVehicle v b = clampPassengers (b\<lparr>vehicle := v\<rparr>)"


subsection \<open>The simulated ETA\<close>

text \<open>\<open>s.split(' ')[0]\<close>: the text before the first space.\<close>

definition firstWord :: "string \<Rightarrow> string" where
  "firstWord s = takeWhile (\<lambda>c. c \<noteq> CHR '' '') s"

text \<open>
  \<open>parseInt(s, 10)\<close>: leading white space is skipped, then an optional sign, then the
  longest run of decimal digits; \<open>None\<close> stands for \<open>NaN\<close>, the result when there is no
  digit. The result is an exact integer (the source rounds beyond \<open>2^53\<close>).
\<close>

definition isWhiteSpace :: "char \<Rightarrow> bool" where
  "isWhiteSpace c = (of_char c \<in> {9, 10, 11, 12, 13, 32, 160 :: nat})"

definition isDigit :: "char \<Rightarrow> bool" where
  "isDigit c = (48 \<le> (of_char c :: nat) \<and> (of_char c :: nat) \<le> 57)"

fun digitsValue :: "int \<Rightarrow> string \<Rightarrow> int" where
  "digitsValue acc [] = acc"
| "digitsValue acc (c # cs) = digitsValue (acc * 10 + (of_char c - 48)) cs"

definition parseInt10 :: "string \<Rightarrow> int option" where
  "parseInt10 s =
     (let t = dropWhile isWhiteSpace s;
          neg = (t \<noteq> [] \<and> hd t = CHR ''-'');
          u = (if t \<noteq> [] \<and> (hd t = CHR ''-'' \<or> hd t = CHR ''+'') then tl t else t);
          ds = takeWhile isDigit u
      in if ds = [] then None
         else Some (if neg then - digitsValue 0 ds else digitsValue 0 ds))"

text \<open>The initialisation at the head of the tracking effect: \<open>setDynamicEta\<close> unless \<open>NaN\<close>.\<close>

definition initEta :: "RideDetails \<Rightarrow> booking \<Rightarrow> booking" where
  "initEta details b =
     (case parseInt10 (firstWord (eta details)) of
        Some initialEta \<Rightarrow> b\<lparr>dynamicEta := Some initialEta\<rparr>
      | None \<Rightarrow> b)"

text \<open>One firing of \<open>etaInterval\<close>: the updater given to \<open>setDynamicEta\<close>.\<close>

definition etaTick :: "booking \<Rightarrow> booking" where
  "etaTick b =
     (case dynamicEta b of
        Some prevEta \<Rightarrow>
          if prevEta > 0
          then (let newEta = prevEta - 1
                in (if newEta = 2 then showToast ''Your driver is 2 minutes away!'' b else b)
                     \<lparr>dynamicEta := Some newEta\<rparr>)
          else b\<lparr>dynamicEta := Some 0\<rparr>
      | None \<Rightarrow> b\<lparr>dynamicEta := Some 0\<rparr>)"

text \<open>\<open>k\<close> consecutive firings of the interval.\<close>

fun etaTicks :: "nat \<Rightarrow> booking \<Rightarrow> booking" where
  "etaTicks 0 b = b"
| "etaTicks (Suc k) b = etaTicks k (etaTick b)"

text \<open>
  What the confirmed view shows as the ETA: the number of \<open>dynamicEta\<close> (followed by
  \<open>min\<close>) when it is set, the text of the offer otherwise.
\<close>

datatype EtaDisplay = Minutes int | StaticText string

definition shownEta :: "RideDetails \<Rightarrow> booking \<Rightarrow> EtaDisplay" where
  "shownEta details b =
     (case dynamicEta b of Some n \<Rightarrow> Minutes n | None \<Rightarrow> StaticText (eta details))"

text \<open>
  One firing of \<open>moveInterval\<close>; \<open>r1\<close> and \<open>r2\<close> are the two values of \<open>Math.random()\<close>.
\<close>

definition moveTick :: "real \<Rightarrow> real \<Rightarrow> booking \<Rightarrow> booking" where
  "moveTick r1 r2 b =
     (let newTop = pos_top (driverPosition b) + (r1 - 0.5) * 4;
          newLeft = pos_left (driverPosition b) + (r2 - 0.5) * 4
      in b\<lparr>driverPosition := \<lparr>pos_top = max 10 (min 80 newTop),
                                pos_left = max 10 (min 90 newLeft)\<rparr>\<rparr>)"


subsection \<open>Search\<close>

record RideRequest =
  req_pickup :: string
  req_destination :: string
  req_vehicle :: VehicleType
  req_passengerCount :: int

definition currentRequest :: "booking \<Rightarrow> RideRequest" where
  "currentRequest b =
     \<lparr>req_pickup = pickup b, req_destination = destination b,
      req_vehicle = vehicle b, req_passengerCount = passengerCount b\<rparr>"

text \<open>
  \<open>handleFindRide\<close> up to its \<open>await\<close>: the validation, and otherwise the move to
  \<open>SEARCHING\<close> together with the request handed to \<open>generateRideDetails\<close>.
\<close>

definition handleFindRide :: "booking \<Rightarrow> booking \<times> RideRequest option" where
  "handleFindRide b =
     (if pickup b = [] \<or> destination b = []
      then (b\<lparr>error := Some ''Please enter both pickup and destination.''\<rparr>, None)
      else (b\<lparr>error := None, rideStatus := SEARCHING\<rparr>, Some (currentRequest b)))"

text \<open>
  The continuation after the \<open>await\<close> when the promise resolves; \<open>origin\<close> is
  \<open>window.location.origin\<close> and \<open>uniqueRideId\<close> the text built from \<open>Date.now()\<close> and
  \<open>Math.random()\<close>.
\<close>

definition handleFindRide_resolved :: "string \<Rightarrow> string \<Rightarrow> RideDetails \<Rightarrow> booking \<Rightarrow> booking" where
  "handleFindRide_resolved origin uniqueRideId details b =
     b\<lparr>rideDetails := Some details, rideStatus := CONFIRMED,
       rideTrackingLink := Some (origin @ ''/track?rideId='' @ uniqueRideId)\<rparr>"

text \<open>The \<open>catch\<close> block, when the promise rejects.\<close>

definition handleFindRide_rejected :: "booking \<Rightarrow> booking" where
  "handleFindRide_rejected b =
     b\<lparr>error := Some ''Could not find a ride. Please try again later.'', rideStatus := ERROR\<rparr>"


subsection \<open>Payment and completion\<close>

text \<open>
  \<open>completeRideAction\<close> is a \<open>useCallback\<close> over \<open>rideDetails\<close>, \<open>pickup\<close> and
  \<open>destination\<close>: when it runs from a timer it reads the values of the render in which
  the timer was set, not the current ones. A \<open>closure\<close> holds these captured values.
\<close>

record closure =
  seen_rideDetails :: "RideDetails option"
  seen_pickup :: string
  seen_destination :: string

definition capture :: "booking \<Rightarrow> closure" where
  "capture b =
     \<lparr>seen_rideDetails = rideDetails b, seen_pickup = pickup b, seen_destination = destination b\<rparr>"

definition completeRideAction :: "closure \<Rightarrow> booking \<Rightarrow> booking" where
  "completeRideAction c b =
     (case seen_rideDetails c of
        Some details \<Rightarrow>
          onRideComplete \<lparr>ride_pickup = seen_pickup c, ride_destination = seen_destination c,
                          ride_details = details\<rparr> b
      | None \<Rightarrow> b)
     \<lparr>payingMethodId := None, rideStatus := PAID, dynamicEta := None, isGPayModalOpen := False\<rparr>"

definition handleGPaySuccess :: "closure \<Rightarrow> booking \<Rightarrow> booking" where
  "handleGPaySuccess c b = completeRideAction c (showToast ''Payment successful!'' b)"

definition handleGPayCancel :: "booking \<Rightarrow> booking" where
  "handleGPayCancel b = b\<lparr>isGPayModalOpen := False, payingMethodId := None\<rparr>"

text \<open>What a pending \<open>setTimeout\<close> of the payment flow will call, and after how many ms.\<close>

datatype callback = CompleteRide closure | GPaySuccess closure

record timeout =
  delay :: nat
  callback :: callback

fun runCallback :: "callback \<Rightarrow> booking \<Rightarrow> booking" where
  "runCallback (CompleteRide c) b = completeRideAction c b"
| "runCallback (GPaySuccess c) b = handleGPaySuccess c b"

text \<open>\<open>handlePayment\<close>: the new state and the timer it sets, if any.\<close>

definition handlePayment :: "PaymentMethod \<Rightarrow> booking \<Rightarrow> booking \<times> timeout option" where
  "handlePayment method b =
     (let b1 = b\<lparr>payingMethodId := Some (method_id method)\<rparr>
      in if method_type method = GOOGLE_PAY
         then (b1\<lparr>isGPayModalOpen := True\<rparr>, None)
         else (b1, Some \<lparr>delay = (if method_type method = CASH then 500 else 2000),
                         callback = CompleteRide (capture b)\<rparr>))"

text \<open>
  \<open>handlePay\<close> of \<open>GooglePayModal\<close>: the timer whose callback is the \<open>onSuccess\<close> prop,
  that is \<open>handleGPaySuccess\<close> of the render that shows the modal.
\<close>

definition gpayHandlePay :: "booking \<Rightarrow> timeout" where
  "gpayHandlePay b = \<lparr>delay = 2500, callback = GPaySuccess (capture b)\<rparr>"


subsection \<open>Reset and cancellation\<close>

definition handleNewRide :: "booking \<Rightarrow> booking" where
  "handleNewRide b =
     b\<lparr>rideStatus := IDLE, rideDetails := None, pickup := [], destination := [],
       fareEstimate := None, error := None, dynamicEta := None, selectedRide := None,
       isShowingHistory := False, cancellationStep := step_idle, cancellationReason := [],
       rideTrackingLink := None, isShareModalOpen := False\<rparr>"

definition handleCancelRide :: "booking \<Rightarrow> booking" where
  "handleCancelRide b =
     (if cancellationStep b = step_reason \<and> cancellationReason b = []
      then showToast ''Please select a reason.'' b
      else handleNewRide (showToast ''Your ride has been cancelled.'' b))"


subsection \<open>The remaining handlers of the view\<close>

definition handleIncrement :: "booking \<Rightarrow> booking" where
  "handleIncrement b =
     (if passengerCount b < maxPassengers (vehicle b)
      then b\<lparr>passengerCount := passengerCount b + 1\<rparr> else b)"

definition handleDecrement :: "booking \<Rightarrow> booking" where
  "handleDecrement b =
     (if passengerCount b > 1 then b\<lparr>passengerCount := passengerCount b - 1\<rparr> else b)"

text \<open>
  \<open>handleShareRequest\<close>; \<open>native\<close> is \<open>None\<close> when \<open>navigator.share\<close> is missing, and
  otherwise says whether the promise of \<open>navigator.share\<close> resolved.
\<close>

definition handleShareRequest :: "bool option \<Rightarrow> booking \<Rightarrow> booking" where
  "handleShareRequest native b =
     (if rideDetails b = None \<or> rideTrackingLink b = None \<or> rideTrackingLink b = Some [] then b
      else case native of
             Some True \<Rightarrow> showToast ''Ride status shared!'' b
           | Some False \<Rightarrow> b
           | None \<Rightarrow> b\<lparr>isShareModalOpen := True\<rparr>)"

definition copyLink :: "booking \<Rightarrow> booking" where
  "copyLink b =
     (if rideTrackingLink b = None \<or> rideTrackingLink b = Some [] then b
      else showToast ''Link copied to clipboard!'' b)"


section \<open>The orchestrator as a transition system\<close>

text \<open>
  One mounting of the view together with what the JavaScript runtime holds for it: the
  clock (in ms), the number of pending \<open>generateRideDetails\<close> promises, the pending
  \<open>setTimeout\<close> callbacks of the payment flow with the time at which each becomes due,
  the \<open>isProcessing\<close> cell of the Google Pay modal, the two intervals of the tracking
  effect (the times at which \<open>moveInterval\<close> and \<open>etaInterval\<close> are next due) while
  they are alive, and the \<open>toastMessage\<close> cell of \<open>App\<close>, which \<open>showToast\<close> sets.
\<close>

record system =
  view :: booking
  now :: nat
  searches :: nat
  timeouts :: "(nat \<times> callback) list"
  gpayProcessing :: bool
  intervals :: "(nat \<times> nat) option"
  toastMessage :: "string option"

definition initial_system :: "PaymentMethod list \<Rightarrow> system" where
  "initial_system pms =
     \<lparr>view = initial_booking pms, now = 0, searches = 0, timeouts = [],
      gpayProcessing = False, intervals = None, toastMessage = None\<rparr>"

text \<open>
  What can happen: the actions the rendered view offers to the user, the completions of
  asynchronous work, the passing of time, the closing of the toast, a re-rendering of
  \<open>App\<close> for a reason of its own (a change of a part of its state that the model does
  not hold), and the writes of the fare estimator, which is modelled on its own below.
\<close>

datatype event =
    SetPickup string
  | SetDestination string
  | SelectVehicle VehicleType
  | IncrementPassengers
  | DecrementPassengers
  | FindRide
  | SearchResolved string string RideDetails
  | SearchRejected
  | Pay PaymentMethod
  | GPayConfirm
  | GPayCancel
  | TimeoutFires nat
  | CancelRequest
  | KeepRide
  | YesCancel
  | SelectReason string
  | ConfirmCancellation
  | NewRide
  | ShareRequest "bool option"
  | CloseShareModal
  | CopyLink
  | ShowHistory
  | SelectHistoryRide string
  | CloseHistory
  | EtaTick
  | MoveTick real real
  | Elapse nat
  | ToastClosed
  | AppRerender
  | EstimatorWrite "FareEstimate option" bool

text \<open>
  Whether the event can happen: for a user action, whether \<open>renderContent\<close> and the
  overlays render its control in the current state and the control is not \<open>disabled\<close>;
  for a completion, whether the promise or timer is pending (and, for a timer, due).
  The form values can also be set from outside the view (the voice assistant of \<open>App\<close>
  holds the same setters), so setting them is always possible.
\<close>

fun enabled :: "event \<Rightarrow> system \<Rightarrow> bool" where
  "enabled (SetPickup p) s = True"
| "enabled (SetDestination d) s = True"
| "enabled (SelectVehicle v) s = True"
| "enabled IncrementPassengers s =
     (rideStatus (view s) \<notin> {SEARCHING, CONFIRMED, PAID, ERROR} \<and>
      \<not> passengerCount (view s) \<ge> maxPassengers (vehicle (view s)))"
| "enabled DecrementPassengers s =
     (rideStatus (view s) \<notin> {SEARCHING, CONFIRMED, PAID, ERROR} \<and>
      \<not> passengerCount (view s) \<le> 1)"
| "enabled FindRide s =
     (rideStatus (view s) \<notin> {SEARCHING, CONFIRMED, PAID, ERROR} \<and>
      pickup (view s) \<noteq> [] \<and> destination (view s) \<noteq> [])"
| "enabled (SearchResolved origin uniqueRideId details) s = (0 < searches s)"
| "enabled SearchRejected s = (0 < searches s)"
| "enabled (Pay m) s =
     (rideStatus (view s) = CONFIRMED \<and> rideDetails (view s) \<noteq> None \<and>
      m \<in> set (paymentMethods (view s)) \<and> payingMethodId (view s) \<noteq> Some (method_id m))"
| "enabled GPayConfirm s =
     (isGPayModalOpen (view s) \<and> rideDetails (view s) \<noteq> None \<and> \<not> gpayProcessing s)"
| "enabled GPayCancel s =
     (isGPayModalOpen (view s) \<and> rideDetails (view s) \<noteq> None \<and> \<not> gpayProcessing s)"
| "enabled (TimeoutFires i) s = (i < length (timeouts s) \<and> fst (timeouts s ! i) \<le> now s)"
| "enabled CancelRequest s = (rideStatus (view s) = CONFIRMED \<and> rideDetails (view s) \<noteq> None)"
| "enabled KeepRide s = (cancellationStep (view s) = step_confirm)"
| "enabled YesCancel s = (cancellationStep (view s) = step_confirm)"
| "enabled (SelectReason r) s =
     (cancellationStep (view s) = step_reason \<and> r \<in> set CANCELLATION_REASONS)"
| "enabled ConfirmCancellation s =
     (cancellationStep (view s) = step_reason \<and> cancellationReason (view s) \<noteq> [])"
| "enabled NewRide s = (rideStatus (view s) = PAID \<or> rideStatus (view s) = ERROR)"
| "enabled (ShareRequest native) s =
     (rideStatus (view s) = CONFIRMED \<and> rideDetails (view s) \<noteq> None)"
| "enabled CloseShareModal s = isShareModalOpen (view s)"
| "enabled CopyLink s = isShareModalOpen (view s)"
| "enabled ShowHistory s = (rideStatus (view s) = IDLE)"
| "enabled (SelectHistoryRide rid) s = (isShowingHistory (view s) \<and> selectedRide (view s) = None)"
| "enabled CloseHistory s = (isShowingHistory (view s) \<or> selectedRide (view s) \<noteq> None)"
| "enabled EtaTick s = (case intervals s of None \<Rightarrow> False | Some (moveDue, etaDue) \<Rightarrow> etaDue \<le> now s)"
| "enabled (MoveTick r1 r2) s =
     (0 \<le> r1 \<and> r1 < 1 \<and> 0 \<le> r2 \<and> r2 < 1 \<and>
      (case intervals s of None \<Rightarrow> False | Some (moveDue, etaDue) \<Rightarrow> moveDue \<le> now s))"
| "enabled (Elapse dt) s = True"
| "enabled ToastClosed s = (toastMessage s \<noteq> None)"
| "enabled AppRerender s = True"
| "enabled (EstimatorWrite estimate estimating) s = True"

text \<open>Adding a timer: it becomes due \<open>delay\<close> ms from now.\<close>

definition setTimeout :: "timeout \<Rightarrow> system \<Rightarrow> system" where
  "setTimeout t s = s\<lparr>timeouts := timeouts s @ [(now s + delay t, callback t)]\<rparr>"

text \<open>The handler or callback that the event runs.\<close>

fun perform :: "event \<Rightarrow> system \<Rightarrow> system" where
  "perform (SetPickup p) s = s\<lparr>view := (view s)\<lparr>pickup := p\<rparr>\<rparr>"
| "perform (SetDestination d) s = s\<lparr>view := (view s)\<lparr>destination := d\<rparr>\<rparr>"
| "perform (SelectVehicle v) s = s\<lparr>view := (view s)\<lparr>vehicle := v\<rparr>\<rparr>"
| "perform IncrementPassengers s = s\<lparr>view := handleIncrement (view s)\<rparr>"
| "perform DecrementPassengers s = s\<lparr>view := handleDecrement (view s)\<rparr>"
| "perform FindRide s =
     (case handleFindRide (view s) of
        (b, None) \<Rightarrow> s\<lparr>view := b\<rparr>
      | (b, Some request) \<Rightarrow> s\<lparr>view := b, searches := searches s + 1\<rparr>)"
| "perform (SearchResolved origin uniqueRideId details) s =
     s\<lparr>view := handleFindRide_resolved origin uniqueRideId details (view s),
       searches := searches s - 1\<rparr>"
| "perform SearchRejected s =
     s\<lparr>view := handleFindRide_rejected (view s), searches := searches s - 1\<rparr>"
| "perform (Pay m) s =
     (case handlePayment m (view s) of
        (b, None) \<Rightarrow> s\<lparr>view := b\<rparr>
      | (b, Some t) \<Rightarrow> setTimeout t (s\<lparr>view := b\<rparr>))"
| "perform GPayConfirm s = setTimeout (gpayHandlePay (view s)) (s\<lparr>gpayProcessing := True\<rparr>)"
| "perform GPayCancel s = s\<lparr>view := handleGPayCancel (view s)\<rparr>"
| "perform (TimeoutFires i) s =
     s\<lparr>view := runCallback (snd (timeouts s ! i)) (view s),
       timeouts := take i (timeouts s) @ drop (Suc i) (timeouts s)\<rparr>"
| "perform CancelRequest s = s\<lparr>view := (view s)\<lparr>cancellationStep := step_confirm\<rparr>\<rparr>"
| "perform KeepRide s = s\<lparr>view := (view s)\<lparr>cancellationStep := step_idle\<rparr>\<rparr>"
| "perform YesCancel s = s\<lparr>view := (view s)\<lparr>cancellationStep := step_reason\<rparr>\<rparr>"
| "perform (SelectReason r) s = s\<lparr>view := (view s)\<lparr>cancellationReason := r\<rparr>\<rparr>"
| "perform ConfirmCancellation s = s\<lparr>view := handleCancelRide (view s)\<rparr>"
| "perform NewRide s = s\<lparr>view := handleNewRide (view s)\<rparr>"
| "perform (ShareRequest native) s = s\<lparr>view := handleShareRequest native (view s)\<rparr>"
| "perform CloseShareModal s = s\<lparr>view := (view s)\<lparr>isShareModalOpen := False\<rparr>\<rparr>"
| "perform CopyLink s = s\<lparr>view := copyLink (view s)\<rparr>"
| "perform ShowHistory s = s\<lparr>view := (view s)\<lparr>isShowingHistory := True\<rparr>\<rparr>"
| "perform (SelectHistoryRide rid) s = s\<lparr>view := (view s)\<lparr>selectedRide := Some rid\<rparr>\<rparr>"
| "perform CloseHistory s =
     s\<lparr>view := (view s)\<lparr>selectedRide := None, isShowingHistory := False\<rparr>\<rparr>"
| "perform EtaTick s =
     s\<lparr>view := etaTick (view s),
       intervals := map_option (\<lambda>(moveDue, etaDue). (moveDue, etaDue + 60000)) (intervals s)\<rparr>"
| "perform (MoveTick r1 r2) s =
     s\<lparr>view := moveTick r1 r2 (view s),
       intervals := map_option (\<lambda>(moveDue, etaDue). (moveDue + 2000, etaDue)) (intervals s)\<rparr>"
| "perform (Elapse dt) s = s\<lparr>now := now s + dt\<rparr>"
| "perform ToastClosed s = s\<lparr>toastMessage := None\<rparr>"
| "perform AppRerender s = s"
| "perform (EstimatorWrite estimate estimating) s =
     s\<lparr>view := (view s)\<lparr>fareEstimate := estimate, isEstimating := estimating\<rparr>\<rparr>"

text \<open>
  The tracking effect, with the dependencies \<open>[rideStatus, rideDetails, showToast]\<close>: its
  clean-up clears both intervals, and its body, while the ride is confirmed and an offer
  is present, initialises the ETA and starts both intervals.
\<close>

definition trackingEffect :: "system \<Rightarrow> system" where
  "trackingEffect s =
     (case rideDetails (view s) of
        Some details \<Rightarrow>
          if rideStatus (view s) = CONFIRMED
          then s\<lparr>view := initEta details (view s),
                 intervals := Some (now s + 2000, now s + 60000)\<rparr>
          else s\<lparr>intervals := None\<rparr>
      | None \<Rightarrow> s\<lparr>intervals := None\<rparr>)"

text \<open>
  Whether the event by itself hands the tracking effect a new dependency, whatever the
  values: a resolved search sets a new offer object, and a re-rendering of \<open>App\<close> passes
  a new \<open>showToast\<close> (\<open>App\<close> defines \<open>showToast\<close> anew in every rendering).
\<close>

fun renews :: "event \<Rightarrow> bool" where
  "renews (SearchResolved origin uniqueRideId details) = True"
| "renews AppRerender = True"
| "renews ev = False"

text \<open>
  A call of \<open>showToast\<close> sets the \<open>toastMessage\<close> of \<open>App\<close>: after a handler that has
  shown a toast, the cell holds the last message shown.
\<close>

definition shownToast :: "system \<Rightarrow> system \<Rightarrow> system" where
  "shownToast s0 s1 =
     (if toasts (view s1) \<noteq> toasts (view s0) \<and> toasts (view s1) \<noteq> []
      then s1\<lparr>toastMessage := Some (last (toasts (view s1)))\<rparr> else s1)"

text \<open>
  Whether \<open>App\<close> renders again after the state \<open>s0\<close> has become \<open>s1\<close>: it does when a
  part of its own state has changed, that is one of the form values, the toast
  message, or the ride history (to which \<open>onRideComplete\<close> adds).
\<close>

definition appRendered :: "system \<Rightarrow> system \<Rightarrow> bool" where
  "appRendered s0 s1 =
     (pickup (view s1) \<noteq> pickup (view s0) \<or>
      destination (view s1) \<noteq> destination (view s0) \<or>
      vehicle (view s1) \<noteq> vehicle (view s0) \<or>
      passengerCount (view s1) \<noteq> passengerCount (view s0) \<or>
      toastMessage s1 \<noteq> toastMessage s0 \<or>
      completedRides (view s1) \<noteq> completedRides (view s0))"

text \<open>
  What follows the handler, when the state \<open>s0\<close> has become \<open>s1\<close>: the toast message is
  set; then React runs the effects whose dependencies have changed: the passenger clamp
  when the vehicle or the count changed, the tracking effect when the status or the
  offer changed or when \<open>showToast\<close> is a new function, which it is after every
  rendering of \<open>App\<close>; and the Google Pay modal loses its \<open>isProcessing\<close> cell when it is
  no longer rendered.
\<close>

definition runEffects :: "bool \<Rightarrow> system \<Rightarrow> system \<Rightarrow> system" where
  "runEffects renewed s0 s1 =
     (let s1' = shownToast s0 s1;
          s2 = (if vehicle (view s1') \<noteq> vehicle (view s0) \<or>
                   passengerCount (view s1') \<noteq> passengerCount (view s0)
                then s1'\<lparr>view := clampPassengers (view s1')\<rparr> else s1');
          s3 = (if renewed \<or> appRendered s0 s2 \<or>
                   rideStatus (view s2) \<noteq> rideStatus (view s0) \<or>
                   rideDetails (view s2) \<noteq> rideDetails (view s0)
                then trackingEffect s2 else s2)
      in if isGPayModalOpen (view s3) \<and> rideDetails (view s3) \<noteq> None then s3
         else s3\<lparr>gpayProcessing := False\<rparr>)"

definition step :: "event \<Rightarrow> system \<Rightarrow> system option" where
  "step ev s = (if enabled ev s then Some (runEffects (renews ev) s (perform ev s)) else None)"

fun run :: "event list \<Rightarrow> system \<Rightarrow> system option" where
  "run [] s = Some s"
| "run (ev # evs) s = (case step ev s of None \<Rightarrow> None | Some s' \<Rightarrow> run evs s')"


section \<open>A sample ride and a sample history\<close>

text \<open>
  The scenario of the specification: pickup \<open>MG Road\<close>, destination \<open>Bus Stand\<close>, a car,
  one passenger, and a service that answers with an offer whose ETA is \<open>8 min\<close>.
\<close>

definition sample_methods :: "PaymentMethod list" where
  "sample_methods =
     [\<lparr>method_id = ''CASH'', method_type = CASH, brand = None, last4 = None\<rparr>,
      \<lparr>method_id = ''1'', method_type = CARD, brand = Some ''Visa'', last4 = Some ''4242''\<rparr>,
      \<lparr>method_id = ''gpay'', method_type = GOOGLE_PAY, brand = None, last4 = None\<rparr>,
      \<lparr>method_id = ''phonepe'', method_type = PHONE_PE, brand = None, last4 = None\<rparr>]"

definition sample_offer :: "string \<Rightarrow> RideDetails" where
  "sample_offer etaText =
     \<lparr>driverName = ''Ravi Kumar'', driverPhotoUrl = ''https://picsum.photos/seed/Ravi/200/200'',
      driverBio = ''5-star driver with 4 years of experience.'',
      vehicleModel = ''Maruti Suzuki Swift'', licensePlate = ''KA 38 AB 1234'',
      eta = etaText, fare = ''120''\<rparr>"

definition sample_form :: booking where
  "sample_form = (initial_booking sample_methods)\<lparr>pickup := ''MG Road'', destination := ''Bus Stand''\<rparr>"

text \<open>The state once the search for the sample ride has resolved and the tracking effect has run.\<close>

definition sample_confirmed :: "string \<Rightarrow> booking" where
  "sample_confirmed etaText =
     initEta (sample_offer etaText)
       (handleFindRide_resolved ''https://chaloride.example'' ''1730628000000-k3x9q2a''
          (sample_offer etaText) (fst (handleFindRide sample_form)))"

text \<open>The sample ride with the cancellation dialogue at its reason step, no reason chosen yet.\<close>

definition sample_reason_step :: booking where
  "sample_reason_step = (sample_confirmed ''8 min'')\<lparr>cancellationStep := step_reason\<rparr>"


text \<open>
  A concrete history: the sample ride is searched for, found and confirmed; the user
  selects the card (the timer of 2000 ms is set), and within the next second opens the
  cancellation dialogue, confirms, selects a reason and commits the cancellation. One
  more second passes, and the timer is due.
\<close>

definition searching_events :: "event list" where
  "searching_events = [SetPickup ''MG Road'', SetDestination ''Bus Stand'', FindRide, Elapse 3000]"

definition confirmed_events :: "event list" where
  "confirmed_events =
     searching_events @
     [SearchResolved ''https://chaloride.example'' ''1730628000000-k3x9q2a'' (sample_offer ''8 min''),
      Elapse 5000]"

definition cancelled_while_paying :: "event list" where
  "cancelled_while_paying =
     confirmed_events @
     [Pay (sample_methods ! 1),
      Elapse 300, CancelRequest, Elapse 200, YesCancel, Elapse 300,
      SelectReason ''Changed my mind'', Elapse 200, ConfirmCancellation, Elapse 1000]"

text \<open>The states along this history: after the form is filled in, \<open>\<dots>\<close>\<close>

definition form_system :: system where
  "form_system = (initial_system sample_methods)\<lparr>view := sample_form\<rparr>"

text \<open>\<open>\<dots>\<close> while the search is pending, \<open>\<dots>\<close>\<close>

definition searching_system :: system where
  "searching_system =
     \<lparr>view = fst (handleFindRide sample_form), now = 3000, searches = 1, timeouts = [],
      gpayProcessing = False, intervals = None, toastMessage = None\<rparr>"

text \<open>\<open>\<dots>\<close> five seconds after the offer has arrived, \<open>\<dots>\<close>\<close>

definition confirmed_system :: system where
  "confirmed_system =
     \<lparr>view = sample_confirmed ''8 min'', now = 8000, searches = 0, timeouts = [],
      gpayProcessing = False, intervals = Some (5000, 63000), toastMessage = None\<rparr>"

text \<open>\<open>\<dots>\<close> and when the ride has been cancelled with the card's timer pending and now due.\<close>

definition cancelled_system :: system where
  "cancelled_system =
     \<lparr>view = handleCancelRide
               ((sample_confirmed ''8 min'')
                  \<lparr>payingMethodId := Some ''1'', cancellationStep := step_reason,
                   cancellationReason := ''Changed my mind''\<rparr>),
      now = 10000, searches = 0,
      timeouts = [(10000, CompleteRide (capture (sample_confirmed ''8 min'')))],
      gpayProcessing = False, intervals = None,
      toastMessage = Some ''Your ride has been cancelled.''\<rparr>"

text \<open>
  A second history: the driver of the confirmed sample ride drifts by one point each way,
  the user selects the card, and then cancels the ride with a reason.
\<close>

definition cancelled_after_drift :: "event list" where
  "cancelled_after_drift =
     confirmed_events @
     [MoveTick 0.75 0.75, Pay (sample_methods ! 1), CancelRequest, YesCancel,
      SelectReason ''Changed my mind'', ConfirmCancellation]"

definition drifted_cancelled_system :: system where
  "drifted_cancelled_system =
     \<lparr>view = handleCancelRide
               ((moveTick 0.75 0.75 (sample_confirmed ''8 min''))
                  \<lparr>payingMethodId := Some ''1'', cancellationStep := step_reason,
                   cancellationReason := ''Changed my mind''\<rparr>),
      now = 8000, searches = 0,
      timeouts = [(10000, CompleteRide (capture (sample_confirmed ''8 min'')))],
      gpayProcessing = False, intervals = None,
      toastMessage = Some ''Your ride has been cancelled.''\<rparr>"

text \<open>The state of this history just before its last event, the commit.\<close>

definition committing_system :: system where
  "committing_system =
     \<lparr>view = (moveTick 0.75 0.75 (sample_confirmed ''8 min''))
               \<lparr>payingMethodId := Some ''1'', cancellationStep := step_reason,
                cancellationReason := ''Changed my mind''\<rparr>,
      now = 8000, searches = 0,
      timeouts = [(10000, CompleteRide (capture (sample_confirmed ''8 min'')))],
      gpayProcessing = False, intervals = Some (7000, 63000), toastMessage = None\<rparr>"






text \<open>The closure of a pending callback.\<close>

fun closureOf :: "callback \<Rightarrow> closure" where
  "closureOf (CompleteRide c) = c"
| "closureOf (GPaySuccess c) = c"

text \<open>Every pending timer has captured an offer.\<close>

definition timers_hold_offers :: "system \<Rightarrow> bool" where
  "timers_hold_offers s =
     list_all (\<lambda>t. seen_rideDetails (closureOf (snd t)) \<noteq> None) (timeouts s)"


section \<open>The fare estimator\<close>

text \<open>
  The effect with the dependencies \<open>[pickup, destination, vehicle, passengerCount]\<close>,
  with what the runtime holds for it: the clock (in ms); the pending debounce timer, if
  any, with the time at which it is due and the inputs \<open>p, d, v, pc\<close> that its callback
  has captured; the calls of \<open>estimateFare\<close> that await their response, each with the
  captured inputs of the callback that waits for it, in the order of issue; the log of
  all calls issued; and the log of every \<open>setFareEstimate(estimate)\<close>, each with the
  captured inputs of the callback that wrote it.
\<close>

record estimator =
  form :: booking
  clock :: nat
  debounce :: "(nat \<times> RideRequest) option"
  inflight :: "RideRequest list"
  issued :: "RideRequest list"
  written :: "(RideRequest \<times> FareEstimate) list"

definition setRequest :: "RideRequest \<Rightarrow> booking \<Rightarrow> booking" where
  "setRequest r b =
     b\<lparr>pickup := req_pickup r, destination := req_destination r,
       vehicle := req_vehicle r, passengerCount := req_passengerCount r\<rparr>"

text \<open>
  A trigger: the inputs change to \<open>r\<close>; the clean-up of the previous run of the effect
  clears its timer, and \<open>debouncedEstimate\<close> sets a new one, due in 500 ms.
\<close>

definition trigger :: "RideRequest \<Rightarrow> estimator \<Rightarrow> estimator" where
  "trigger r s = s\<lparr>form := setRequest r (form s), debounce := Some (clock s + 500, r)\<rparr>"

text \<open>The callback of the timer, up to its \<open>await\<close>.\<close>

definition debounceFires :: "estimator \<Rightarrow> estimator" where
  "debounceFires s =
     (case debounce s of
        None \<Rightarrow> s
      | Some (due, r) \<Rightarrow>
          if length (req_pickup r) > 2 \<and> length (req_destination r) > 2
          then s\<lparr>form := (form s)\<lparr>isEstimating := True, fareEstimate := None\<rparr>,
                 debounce := None, inflight := inflight s @ [r], issued := issued s @ [r]\<rparr>
          else s\<lparr>form := (form s)\<lparr>fareEstimate := None\<rparr>, debounce := None\<rparr>)"

text \<open>The continuation of the callback that waits for call number \<open>i\<close> in flight, when
  \<open>estimateFare\<close> resolves with \<open>estimate\<close>, and when it rejects.\<close>

definition estimateResolved :: "nat \<Rightarrow> FareEstimate \<Rightarrow> estimator \<Rightarrow> estimator" where
  "estimateResolved i estimate s =
     s\<lparr>form := (form s)\<lparr>fareEstimate := Some estimate, isEstimating := False\<rparr>,
       inflight := take i (inflight s) @ drop (Suc i) (inflight s),
       written := written s @ [(inflight s ! i, estimate)]\<rparr>"

definition estimateRejected :: "nat \<Rightarrow> estimator \<Rightarrow> estimator" where
  "estimateRejected i s =
     s\<lparr>form := (form s)\<lparr>isEstimating := False\<rparr>,
       inflight := take i (inflight s) @ drop (Suc i) (inflight s)\<rparr>"

text \<open>The effect runs once when the view is mounted, with the initial inputs.\<close>

definition initial_estimator :: "PaymentMethod list \<Rightarrow> estimator" where
  "initial_estimator pms =
     \<lparr>form = initial_booking pms, clock = 0,
      debounce = Some (500, currentRequest (initial_booking pms)),
      inflight = [], issued = [], written = []\<rparr>"

datatype est_event =
    Trigger RideRequest
  | Wait nat
  | DebounceFires
  | EstimateResolved nat FareEstimate
  | EstimateRejected nat

text \<open>
  A trigger is a change of the inputs; the timer fires no earlier than it is due; a
  response arrives for a call in flight.
\<close>

fun est_step :: "est_event \<Rightarrow> estimator \<Rightarrow> estimator option" where
  "est_step (Trigger r) s = (if r \<noteq> currentRequest (form s) then Some (trigger r s) else None)"
| "est_step (Wait dt) s = Some (s\<lparr>clock := clock s + dt\<rparr>)"
| "est_step DebounceFires s =
     (case debounce s of
        None \<Rightarrow> None
      | Some (due, r) \<Rightarrow> if due \<le> clock s then Some (debounceFires s) else None)"
| "est_step (EstimateResolved i estimate) s =
     (if i < length (inflight s) then Some (estimateResolved i estimate s) else None)"
| "est_step (EstimateRejected i) s =
     (if i < length (inflight s) then Some (estimateRejected i s) else None)"

fun est_run :: "est_event list \<Rightarrow> estimator \<Rightarrow> estimator option" where
  "est_run [] s = Some s"
| "est_run (ev # evs) s = (case est_step ev s of None \<Rightarrow> None | Some s' \<Rightarrow> est_run evs s')"

text \<open>An event other than a trigger, and the time that a list of events lets pass.\<close>

fun quiet :: "est_event \<Rightarrow> bool" where
  "quiet (Trigger r) = False"
| "quiet ev = True"

fun elapsed :: "est_event list \<Rightarrow> nat" where
  "elapsed [] = 0"
| "elapsed (Wait dt # evs) = dt + elapsed evs"
| "elapsed (ev # evs) = elapsed evs"

text \<open>
  Three requests, and a history in which the first is issued and still in flight when
  the second and, 100 ms later, the third arrive; the third is issued in its turn and
  answered, and then the answer to the first arrives.
\<close>

definition request_to :: "string \<Rightarrow> RideRequest" where
  "request_to d =
     \<lparr>req_pickup = ''MG Road'', req_destination = d, req_vehicle = CAR, req_passengerCount = 1\<rparr>"

definition late_response :: "est_event list" where
  "late_response =
     [Trigger (request_to ''Fort''), Wait 500, DebounceFires, Wait 100,
      Trigger (request_to ''Bus''), Wait 100, Trigger (request_to ''Bus Stand''),
      Wait 500, DebounceFires,
      EstimateResolved 1 \<lparr>estimatedFare = ''120''\<rparr>,
      EstimateResolved 0 \<lparr>estimatedFare = ''45''\<rparr>]"

text \<open>The same two triggers on the freshly mounted view, where no call is in flight.\<close>

definition debounced_pair :: "est_event list" where
  "debounced_pair =
     [Trigger (request_to ''Bus''), Wait 100, Trigger (request_to ''Bus Stand''),
      Wait 500, DebounceFires, EstimateResolved 0 \<lparr>estimatedFare = ''120''\<rparr>]"


text \<open>The states in which these two histories end.\<close>

definition stale_estimator :: estimator where
  "stale_estimator =
     \<lparr>form = (setRequest (request_to ''Bus Stand'') (initial_booking sample_methods))
               \<lparr>fareEstimate := Some \<lparr>estimatedFare = ''45''\<rparr>\<rparr>,
      clock = 1200, debounce = None, inflight = [],
      issued = [request_to ''Fort'', request_to ''Bus Stand''],
      written = [(request_to ''Bus Stand'', \<lparr>estimatedFare = ''120''\<rparr>),
                 (request_to ''Fort'', \<lparr>estimatedFare = ''45''\<rparr>)]\<rparr>"

definition debounced_estimator :: estimator where
  "debounced_estimator =
     \<lparr>form = (setRequest (request_to ''Bus Stand'') (initial_booking sample_methods))
               \<lparr>fareEstimate := Some \<lparr>estimatedFare = ''120''\<rparr>\<rparr>,
      clock = 600, debounce = None, inflight = [],
      issued = [request_to ''Bus Stand''],
      written = [(request_to ''Bus Stand'', \<lparr>estimatedFare = ''120''\<rparr>)]\<rparr>"

text \<open>
  What can have become of the estimator \<open>s\<close> at a later time \<open>t\<close>, when since \<open>s\<close> the
  only timer set and not cleared is one for the inputs \<open>B\<close> and no call was in flight
  in \<open>s\<close>: the timer is still pending; or it has fired and its call is in flight; or
  it has fired and nothing is in flight and nothing was written (the inputs were too
  short, or the call was rejected); or the call was answered and the answer written.
\<close>

definition after_last_trigger :: "RideRequest \<Rightarrow> estimator \<Rightarrow> estimator \<Rightarrow> bool" where
  "after_last_trigger B s t =
     (currentRequest (form t) = B \<and>
      ((\<exists>due. debounce t = Some (due, B)) \<and> inflight t = [] \<and> issued t = issued s \<and>
         written t = written s \<and> fareEstimate (form t) = fareEstimate (form s)
       \<or> debounce t = None \<and> inflight t = [B] \<and> issued t = issued s @ [B] \<and>
         written t = written s \<and> fareEstimate (form t) = None
       \<or> debounce t = None \<and> inflight t = [] \<and>
         (issued t = issued s \<or> issued t = issued s @ [B]) \<and>
         written t = written s \<and> fareEstimate (form t) = None
       \<or> debounce t = None \<and> inflight t = [] \<and> issued t = issued s @ [B] \<and>
         (\<exists>estimate. written t = written s @ [(B, estimate)] \<and>
            fareEstimate (form t) = Some estimate)))"

text \<open>The state of the first history when its first call is in flight and 100 ms old.\<close>

definition inflight_estimator :: estimator where
  "inflight_estimator =
     \<lparr>form = (setRequest (request_to ''Fort'') (initial_booking sample_methods))
               \<lparr>isEstimating := True\<rparr>,
      clock = 600, debounce = None, inflight = [request_to ''Fort''],
      issued = [request_to ''Fort''], written = []\<rparr>"

text \<open>
  The part of this that does not depend on the calls in flight. First the log of
  answers: since \<open>s\<close> the estimates written are answers to calls that were in flight
  in \<open>s\<close> or to the calls \<open>own\<close>, each call answered at most once.
\<close>

definition answers_within :: "RideRequest list \<Rightarrow> estimator \<Rightarrow> estimator \<Rightarrow> bool" where
  "answers_within own s t =
     (take (length (written s)) (written t) = written s \<and>
      set (map fst (drop (length (written s)) (written t))) \<union> set (inflight t)
        \<subseteq> set (inflight s) \<union> set own \<and>
      length (written t) + length (inflight t)
        \<le> length (written s) + length (inflight s) + length own)"

text \<open>
  Then the calls: the inputs are \<open>B\<close>, and either \<open>B\<close>'s timer is pending and no call was
  issued since \<open>s\<close>, or no timer is pending and at most one call was issued since \<open>s\<close>,
  for \<open>B\<close>.
\<close>

definition calls_after_last_trigger :: "RideRequest \<Rightarrow> estimator \<Rightarrow> estimator \<Rightarrow> bool" where
  "calls_after_last_trigger B s t =
     (currentRequest (form t) = B \<and>
      (case debounce t of
         Some (due, r) \<Rightarrow> r = B \<and> issued t = issued s \<and> answers_within [] s t
       | None \<Rightarrow>
           issued t = issued s \<and> answers_within [] s t \<or>
           issued t = issued s @ [B] \<and> answers_within [B] s t))"


section \<open>Properties of the resilient RPC client\<close>

declare withRetry_loop.simps [simp del]

lemma withRetry_loop_retry:
  "i < MAX_RETRIES \<Longrightarrow> apiCall calls = Inl e \<Longrightarrow> isRetriable e \<Longrightarrow>
   withRetry_loop apiCall random i lastError calls ws =
   withRetry_loop apiCall random (Suc i) (Some e) (Suc calls) (ws @ [2 ^ i * 1000 + random i * 1000])"
  by (subst withRetry_loop.simps) simp

lemma withRetry_loop_fatal:
  "i < MAX_RETRIES \<Longrightarrow> apiCall calls = Inl e \<Longrightarrow> \<not> isRetriable e \<Longrightarrow>
   withRetry_loop apiCall random i lastError calls ws =
   \<lparr>outcome = Inl e, attempts = Suc calls, waits = ws\<rparr>"
  by (subst withRetry_loop.simps) simp

lemma withRetry_loop_resolved:
  "i < MAX_RETRIES \<Longrightarrow> apiCall calls = Inr v \<Longrightarrow>
   withRetry_loop apiCall random i lastError calls ws =
   \<lparr>outcome = Inr v, attempts = Suc calls, waits = ws\<rparr>"
  by (subst withRetry_loop.simps) simp

lemma withRetry_loop_exhausted:
  "\<not> i < MAX_RETRIES \<Longrightarrow>
   withRetry_loop apiCall random i (Some e) calls ws =
   \<lparr>outcome = Inl e, attempts = calls, waits = ws\<rparr>"
  by (subst withRetry_loop.simps) simp

text \<open>
  Claim C1, as stated, at an operation whose rejections carry the text \<open>unavailable\<close> in
  lower case: the specification classifies the rejection as transient, so the claim
  promises three invocations and the resolved value; \<open>withRetry\<close> compares with
  \<open>UNAVAILABLE\<close> in upper case, invokes the operation once and rethrows.
\<close>

theorem C1_lowercase_unavailable_counterexample:
  "spec_transient unavailable_error \<and>
   unavailable_twice 0 = Inl unavailable_error \<and>
   unavailable_twice 1 = Inl unavailable_error \<and>
   unavailable_twice 2 = Inr 42 \<and>
   outcome (withRetry unavailable_twice no_jitter) = Inl unavailable_error \<and>
   attempts (withRetry unavailable_twice no_jitter) = 1"
  by (simp add: withRetry_def withRetry_loop_fatal MAX_RETRIES_def spec_transient_def
      unavailable_error_def isRetriable_def)

text \<open>
  Claim C1, amended: with a transient signal being a rejection whose \<open>toString()\<close> text
  contains \<open>overloaded\<close> or (case-sensitively) \<open>UNAVAILABLE\<close>: an operation rejected
  twice transiently that resolves on its third invocation makes \<open>withRetry\<close> return
  that value after exactly 3 invocations; an operation whose first rejection is not
  transient is invoked exactly once and that rejection is rethrown; and when all 3
  invocations are rejected transiently the last rejection is rethrown.
\<close>

theorem C1_withRetry_policy:
  "(apiCall 0 = Inl e0 \<and> isRetriable e0 \<and> apiCall 1 = Inl e1 \<and> isRetriable e1 \<and>
    apiCall 2 = Inr v \<longrightarrow>
      outcome (withRetry apiCall random) = Inr v \<and> attempts (withRetry apiCall random) = 3) \<and>
   (apiCall 0 = Inl e \<and> \<not> isRetriable e \<longrightarrow>
      outcome (withRetry apiCall random) = Inl e \<and> attempts (withRetry apiCall random) = 1) \<and>
   (apiCall 0 = Inl e0 \<and> isRetriable e0 \<and> apiCall 1 = Inl e1 \<and> isRetriable e1 \<and>
    apiCall 2 = Inl e2 \<and> isRetriable e2 \<longrightarrow>
      outcome (withRetry apiCall random) = Inl e2 \<and> attempts (withRetry apiCall random) = 3)"
  by (simp add: withRetry_def withRetry_loop_retry withRetry_loop_resolved withRetry_loop_fatal
      withRetry_loop_exhausted MAX_RETRIES_def numeral_2_eq_2 numeral_3_eq_3)

theorem C1_withRetry_policy_witness:
  "outcome (withRetry overloaded_twice no_jitter) = Inr 42 \<and>
   attempts (withRetry overloaded_twice no_jitter) = 3 \<and>
   outcome (withRetry denied_once no_jitter) = Inl (Thrown ''Error: 403 PERMISSION_DENIED'') \<and>
   attempts (withRetry denied_once no_jitter) = 1 \<and>
   outcome (withRetry always_overloaded no_jitter) = Inl (Thrown ''Error: overloaded (third)'') \<and>
   attempts (withRetry always_overloaded no_jitter) = 3"
proof -
  have a: "outcome (withRetry overloaded_twice no_jitter) = Inr 42 \<and>
           attempts (withRetry overloaded_twice no_jitter) = 3"
    using C1_withRetry_policy [of overloaded_twice
        "Thrown ''Error: 503 UNAVAILABLE: The model is overloaded.''"
        "Thrown ''Error: 503 UNAVAILABLE: The model is overloaded.''" 42 no_jitter]
    by (simp add: isRetriable_def)
  have b: "outcome (withRetry denied_once no_jitter) = Inl (Thrown ''Error: 403 PERMISSION_DENIED'') \<and>
           attempts (withRetry denied_once no_jitter) = 1"
    using C1_withRetry_policy [of denied_once _ _ _ no_jitter "Thrown ''Error: 403 PERMISSION_DENIED''"]
    by (simp add: isRetriable_def)
  have c: "outcome (withRetry always_overloaded no_jitter) = Inl (Thrown ''Error: overloaded (third)'') \<and>
           attempts (withRetry always_overloaded no_jitter) = 3"
    using C1_withRetry_policy [of always_overloaded "Thrown ''Error: overloaded (first)''"
        "Thrown ''Error: overloaded (second)''" _ no_jitter _ "Thrown ''Error: overloaded (third)''"]
    by (simp add: isRetriable_def)
  from a b c show ?thesis by simp
qed


section \<open>Properties of the booking view\<close>

lemmas sample_defs =
  sample_confirmed_def sample_offer_def sample_form_def sample_methods_def
  initial_booking_def handleFindRide_def handleFindRide_resolved_def currentRequest_def
  initEta_def parseInt10_def firstWord_def isWhiteSpace_def isDigit_def

lemma sample_confirmed_fields:
  "rideStatus (sample_confirmed e) = CONFIRMED"
  "rideDetails (sample_confirmed e) = Some (sample_offer e)"
  "pickup (sample_confirmed e) = ''MG Road''"
  "destination (sample_confirmed e) = ''Bus Stand''"
  "rideTrackingLink (sample_confirmed e) =
     Some ''https://chaloride.example/track?rideId=1730628000000-k3x9q2a''"
  "cancellationStep (sample_confirmed e) = step_idle"
  "cancellationReason (sample_confirmed e) = []"
  "driverPosition (sample_confirmed e) = \<lparr>pos_top = 40, pos_left = 60\<rparr>"
  "toasts (sample_confirmed e) = []"
  "completedRides (sample_confirmed e) = []"
  by (simp_all add: sample_defs split: option.splits)

lemma sample_confirmed_eta:
  "dynamicEta (sample_confirmed ''8 min'') = Some 8"
  "dynamicEta (sample_confirmed ''2 min'') = Some 2"
  "dynamicEta (sample_confirmed ''-5 min'') = Some (- 5)"
  "dynamicEta (sample_confirmed ''About 8 min'') = None"
  by (simp_all add: sample_defs)


subsection \<open>The passenger clamp\<close>

text \<open>
  Claim C8: after every change of vehicle the passenger count is at most the capacity of
  the newly selected vehicle (1 for a bike, 4 for an auto and for a car); a count above
  the capacity is clamped down to it, and the change is never rejected: the vehicle is
  the selected one and no error message is set.
\<close>

theorem C8_passenger_clamp:
  "passengerCount (setVehicle v b) \<le> maxPassengers v \<and>
   passengerCount (setVehicle v b) = min (passengerCount b) (maxPassengers v) \<and>
   maxPassengers BIKE = 1 \<and> maxPassengers AUTO = 4 \<and> maxPassengers CAR = 4 \<and>
   vehicle (setVehicle v b) = v \<and>
   error (setVehicle v b) = error b \<and>
   rideStatus (setVehicle v b) = rideStatus b"
  by (simp add: setVehicle_def clampPassengers_def maxPassengers_def)

theorem C8_passenger_clamp_witness:
  "passengerCount (setVehicle BIKE (sample_form\<lparr>passengerCount := 3\<rparr>)) = 1 \<and>
   vehicle (setVehicle BIKE (sample_form\<lparr>passengerCount := 3\<rparr>)) = BIKE \<and>
   error (setVehicle BIKE (sample_form\<lparr>passengerCount := 3\<rparr>)) = None"
  using C8_passenger_clamp [of BIKE "sample_form\<lparr>passengerCount := 3\<rparr>"]
  by (simp add: sample_form_def initial_booking_def)


subsection \<open>The ETA countdown\<close>

lemma etaTick_nonneg:
  "dynamicEta b = Some n \<Longrightarrow> 0 \<le> n \<Longrightarrow>
   dynamicEta (etaTick b) = Some (max 0 (n - 1)) \<and>
   toasts (etaTick b) = toasts b @ (if n = 3 then [''Your driver is 2 minutes away!''] else [])"
  by (auto simp: etaTick_def showToast_def Let_def)

lemma etaTicks_nonneg:
  "dynamicEta b = Some n \<Longrightarrow> 0 \<le> n \<Longrightarrow>
   dynamicEta (etaTicks k b) = Some (max 0 (n - int k)) \<and>
   toasts (etaTicks k b) =
     toasts b @ (if 3 \<le> n \<and> n - 2 \<le> int k then [''Your driver is 2 minutes away!''] else [])"
proof (induction k arbitrary: b n)
  case 0
  then show ?case by simp
next
  case (Suc k)
  from etaTick_nonneg [OF Suc.prems]
  have eta: "dynamicEta (etaTick b) = Some (max 0 (n - 1))"
    and toast: "toasts (etaTick b) =
      toasts b @ (if n = 3 then [''Your driver is 2 minutes away!''] else [])"
    by auto
  have "0 \<le> max 0 (n - 1)" by simp
  from Suc.IH [OF eta this] toast show ?case
    by (auto simp: max_def)
qed

text \<open>
  Claim C4, as stated, fails on two rides. The ride whose offer says \<open>2 min\<close> starts
  with \<open>dynamicEta = 2\<close>; five ticks later the countdown has reached 0 and no
  notification has fired, so the notification does not fire exactly once per ride. The
  ride whose offer says \<open>-5 min\<close> starts with \<open>dynamicEta = -5\<close>, below 0, and its first
  tick raises the value to 0.
\<close>

theorem C4_eta_countdown_counterexample:
  "rideStatus (sample_confirmed ''2 min'') = CONFIRMED \<and>
   dynamicEta (sample_confirmed ''2 min'') = Some 2 \<and>
   dynamicEta (etaTicks 5 (sample_confirmed ''2 min'')) = Some 0 \<and>
   toasts (etaTicks 5 (sample_confirmed ''2 min'')) = [] \<and>
   dynamicEta (sample_confirmed ''-5 min'') = Some (- 5) \<and>
   dynamicEta (etaTick (sample_confirmed ''-5 min'')) = Some 0"
  using etaTicks_nonneg [of "sample_confirmed ''2 min''" 2 5]
  by (simp add: sample_confirmed_eta sample_confirmed_fields etaTick_def)

text \<open>
  Claim C4, amended: within one run of the tracking effect (from its initialisation to
  its clean-up), once \<open>dynamicEta\<close> holds a number \<open>n \<ge> 0\<close>, the value after \<open>k\<close>
  consecutive ticks of the countdown is \<open>max 0 (n - k)\<close>, so it never increases and
  never goes below 0; a tick fires the notification exactly when it takes the value
  from 3 to 2, so over the \<open>k\<close> ticks the notification fires once if \<open>n \<ge> 3\<close> and
  \<open>k \<ge> n - 2\<close> and not at all otherwise: at most once, never repeated, and never for a
  countdown that starts at 2 or below.
\<close>

theorem C4_eta_countdown:
  "dynamicEta b = Some n \<Longrightarrow> 0 \<le> n \<Longrightarrow>
   dynamicEta (etaTicks k b) = Some (max 0 (n - int k)) \<and>
   toasts (etaTicks k b) =
     toasts b @ (if 3 \<le> n \<and> n - 2 \<le> int k then [''Your driver is 2 minutes away!''] else []) \<and>
   toasts (etaTick b) =
     toasts b @ (if n - 1 = 2 then [''Your driver is 2 minutes away!''] else [])"
  using etaTicks_nonneg [of b n k] etaTick_nonneg [of b n] by simp

theorem C4_eta_countdown_witness:
  "dynamicEta (sample_confirmed ''8 min'') = Some 8 \<and>
   dynamicEta (etaTicks 5 (sample_confirmed ''8 min'')) = Some 3 \<and>
   toasts (etaTicks 5 (sample_confirmed ''8 min'')) = [] \<and>
   dynamicEta (etaTicks 6 (sample_confirmed ''8 min'')) = Some 2 \<and>
   toasts (etaTicks 6 (sample_confirmed ''8 min'')) = [''Your driver is 2 minutes away!''] \<and>
   dynamicEta (etaTicks 9 (sample_confirmed ''8 min'')) = Some 0 \<and>
   toasts (etaTicks 9 (sample_confirmed ''8 min'')) = [''Your driver is 2 minutes away!'']"
  using C4_eta_countdown [of "sample_confirmed ''8 min''" 8 5]
    C4_eta_countdown [of "sample_confirmed ''8 min''" 8 6]
    C4_eta_countdown [of "sample_confirmed ''8 min''" 8 9]
  by (simp add: sample_confirmed_eta sample_confirmed_fields)

lemma initEta_parsed:
  "parseInt10 (firstWord (eta details)) = Some n \<Longrightarrow> dynamicEta (initEta details b) = Some n"
  by (simp add: initEta_def)

lemma initEta_unparsed:
  "parseInt10 (firstWord (eta details)) = None \<Longrightarrow> initEta details b = b"
  by (simp add: initEta_def)

text \<open>
  Claim C9 at the offer whose ETA text is \<open>About 8 min\<close>: the text before the first
  space has no leading integer, the initialisation leaves \<open>dynamicEta\<close> unset and the
  view shows the static text; but the first tick of the countdown takes the branch
  \<open>return 0\<close>, so from then on \<open>dynamicEta\<close> is 0 and the view shows \<open>0 min\<close>. An offer
  whose text is \<open>8 min\<close> is initialised to 8.
\<close>

theorem C9_unparsed_eta_after_tick:
  "parseInt10 (firstWord (eta (sample_offer ''About 8 min''))) = None \<and>
   rideStatus (sample_confirmed ''About 8 min'') = CONFIRMED \<and>
   dynamicEta (sample_confirmed ''About 8 min'') = None \<and>
   shownEta (sample_offer ''About 8 min'') (sample_confirmed ''About 8 min'') =
     StaticText ''About 8 min'' \<and>
   dynamicEta (etaTick (sample_confirmed ''About 8 min'')) = Some 0 \<and>
   shownEta (sample_offer ''About 8 min'') (etaTick (sample_confirmed ''About 8 min'')) = Minutes 0 \<and>
   dynamicEta (sample_confirmed ''8 min'') = Some 8"
  by (simp add: sample_confirmed_eta sample_confirmed_fields etaTick_def shownEta_def)
     (simp add: sample_defs)


subsection \<open>Completion, reset and cancellation\<close>

text \<open>
  Claim C5, as stated, fails on the sample ride. Completing the payment moves the status
  to \<open>PAID\<close> and leaves the offer and the tracking link in place; and after the driver
  has drifted to \<open>(41, 61)\<close> the reset to \<open>IDLE\<close> leaves the driver position there.
\<close>

theorem C5_bundle_counterexample:
  "rideStatus (completeRideAction (capture (sample_confirmed ''8 min'')) (sample_confirmed ''8 min''))
     = PAID \<and>
   rideDetails (completeRideAction (capture (sample_confirmed ''8 min'')) (sample_confirmed ''8 min''))
     = Some (sample_offer ''8 min'') \<and>
   rideTrackingLink (completeRideAction (capture (sample_confirmed ''8 min'')) (sample_confirmed ''8 min''))
     = Some ''https://chaloride.example/track?rideId=1730628000000-k3x9q2a'' \<and>
   driverPosition (initial_booking sample_methods) = \<lparr>pos_top = 40, pos_left = 60\<rparr> \<and>
   rideStatus (handleNewRide (moveTick 0.75 0.75 (sample_confirmed ''8 min''))) = IDLE \<and>
   driverPosition (handleNewRide (moveTick 0.75 0.75 (sample_confirmed ''8 min'')))
     = \<lparr>pos_top = 41, pos_left = 61\<rparr>"
  by (simp add: completeRideAction_def onRideComplete_def capture_def handleNewRide_def
      moveTick_def sample_confirmed_fields initial_booking_def split: option.splits)

text \<open>
  Claim C5, amended: the reset back to \<open>IDLE\<close> (\<open>handleNewRide\<close>) clears, in one step,
  the offer, \<open>dynamicEta\<close>, the tracking link and the cancellation state, and leaves the
  driver position as it was; the transition to \<open>PAID\<close> (\<open>completeRideAction\<close>) clears
  \<open>dynamicEta\<close> only and leaves the offer, the driver position, the tracking link and the
  cancellation state as they were.
\<close>

theorem C5_bundle:
  "rideStatus (handleNewRide b) = IDLE \<and>
   rideDetails (handleNewRide b) = None \<and>
   dynamicEta (handleNewRide b) = None \<and>
   rideTrackingLink (handleNewRide b) = None \<and>
   cancellationStep (handleNewRide b) = step_idle \<and>
   cancellationReason (handleNewRide b) = [] \<and>
   driverPosition (handleNewRide b) = driverPosition b \<and>
   rideStatus (completeRideAction c b) = PAID \<and>
   dynamicEta (completeRideAction c b) = None \<and>
   rideDetails (completeRideAction c b) = rideDetails b \<and>
   driverPosition (completeRideAction c b) = driverPosition b \<and>
   rideTrackingLink (completeRideAction c b) = rideTrackingLink b \<and>
   cancellationStep (completeRideAction c b) = cancellationStep b \<and>
   cancellationReason (completeRideAction c b) = cancellationReason b"
  by (simp add: handleNewRide_def completeRideAction_def onRideComplete_def split: option.splits)

theorem C5_bundle_witness:
  "rideDetails (handleNewRide (sample_confirmed ''8 min'')) = None \<and>
   rideTrackingLink (handleNewRide (sample_confirmed ''8 min'')) = None \<and>
   driverPosition (handleNewRide (sample_confirmed ''8 min'')) = \<lparr>pos_top = 40, pos_left = 60\<rparr> \<and>
   dynamicEta (completeRideAction (capture (sample_confirmed ''8 min'')) (sample_confirmed ''8 min''))
     = None \<and>
   rideDetails (completeRideAction (capture (sample_confirmed ''8 min'')) (sample_confirmed ''8 min''))
     = Some (sample_offer ''8 min'')"
  using C5_bundle [of "sample_confirmed ''8 min''" "capture (sample_confirmed ''8 min'')"]
  by (simp add: sample_confirmed_fields)


section \<open>Properties of the orchestrator\<close>

lemma initEta_frame:
  "rideStatus (initEta d b) = rideStatus b"
  "rideDetails (initEta d b) = rideDetails b"
  "isGPayModalOpen (initEta d b) = isGPayModalOpen b"
  by (simp_all add: initEta_def split: option.splits)

lemma trackingEffect_frame:
  "rideStatus (view (trackingEffect s)) = rideStatus (view s)"
  "rideDetails (view (trackingEffect s)) = rideDetails (view s)"
  "isGPayModalOpen (view (trackingEffect s)) = isGPayModalOpen (view s)"
  "searches (trackingEffect s) = searches s"
  "timeouts (trackingEffect s) = timeouts s"
  by (simp_all add: trackingEffect_def initEta_frame split: option.splits)

lemma runEffects_frame:
  "rideStatus (view (runEffects r s0 s1)) = rideStatus (view s1)"
  "rideDetails (view (runEffects r s0 s1)) = rideDetails (view s1)"
  "isGPayModalOpen (view (runEffects r s0 s1)) = isGPayModalOpen (view s1)"
  "searches (runEffects r s0 s1) = searches s1"
  "timeouts (runEffects r s0 s1) = timeouts s1"
  by (simp_all add: runEffects_def shownToast_def Let_def trackingEffect_frame clampPassengers_def)

lemmas handler_defs =
  handleIncrement_def handleDecrement_def handleFindRide_def handleFindRide_resolved_def
  handleFindRide_rejected_def handlePayment_def gpayHandlePay_def handleGPayCancel_def
  handleGPaySuccess_def completeRideAction_def onRideComplete_def showToast_def
  handleCancelRide_def handleNewRide_def handleShareRequest_def copyLink_def etaTick_def
  moveTick_def setTimeout_def

lemma runCallback_status: "rideStatus (runCallback cb b) = PAID"
  by (cases cb) (simp_all add: handler_defs split: option.splits)

lemma runCallback_modal: "\<not> isGPayModalOpen (runCallback cb b)"
  by (cases cb) (simp_all add: handler_defs split: option.splits)

text \<open>What an event can do to the status: nothing, or one of five moves.\<close>

lemma perform_status_cases:
  "rideStatus (view (perform ev s)) = rideStatus (view s) \<or>
   (ev = FindRide \<and> rideStatus (view (perform ev s)) = SEARCHING) \<or>
   (\<exists>origin rid d. ev = SearchResolved origin rid d \<and> rideStatus (view (perform ev s)) = CONFIRMED) \<or>
   (ev = SearchRejected \<and> rideStatus (view (perform ev s)) = ERROR) \<or>
   (\<exists>i. ev = TimeoutFires i \<and> rideStatus (view (perform ev s)) = PAID) \<or>
   ((ev = NewRide \<or> ev = ConfirmCancellation) \<and> rideStatus (view (perform ev s)) = IDLE)"
  by (cases ev)
    (auto simp add: handler_defs runCallback_status Let_def
      split: option.splits prod.splits bool.splits)

lemma step_not_completed:
  "step ev s = Some s' \<Longrightarrow> rideStatus (view s) \<noteq> COMPLETED \<Longrightarrow> rideStatus (view s') \<noteq> COMPLETED"
  using perform_status_cases [of ev s]
  by (auto simp: step_def runEffects_frame split: if_splits)

lemma run_not_completed:
  "run evs s = Some s' \<Longrightarrow> rideStatus (view s) \<noteq> COMPLETED \<Longrightarrow> rideStatus (view s') \<noteq> COMPLETED"
proof (induction evs arbitrary: s)
  case Nil
  then show ?case by simp
next
  case (Cons ev evs)
  then show ?case
    by (auto split: option.splits dest: step_not_completed)
qed

lemma perform_searches:
  "searches s < searches (perform ev s) \<Longrightarrow>
   ev = FindRide \<and> rideStatus (view (perform ev s)) = SEARCHING"
  by (cases ev)
    (auto simp add: handler_defs Let_def split: option.splits prod.splits if_splits)

lemma perform_timeouts:
  "enabled ev s \<Longrightarrow> length (timeouts s) < length (timeouts (perform ev s)) \<Longrightarrow>
   (\<exists>m. ev = Pay m \<and> rideStatus (view s) = CONFIRMED \<and> rideDetails (view s) \<noteq> None) \<or>
   (ev = GPayConfirm \<and> isGPayModalOpen (view s) \<and> rideDetails (view s) \<noteq> None)"
  by (cases ev)
    (auto simp add: handler_defs Let_def split: option.splits prod.splits if_splits)

lemma perform_modal:
  "enabled ev s \<Longrightarrow> isGPayModalOpen (view (perform ev s)) \<Longrightarrow> \<not> isGPayModalOpen (view s) \<Longrightarrow>
   (\<exists>m. ev = Pay m \<and> method_type m = GOOGLE_PAY \<and> rideStatus (view s) = CONFIRMED \<and>
        rideDetails (view s) \<noteq> None)"
  by (cases ev)
    (auto simp add: handler_defs Let_def runCallback_modal
      split: option.splits prod.splits if_splits bool.splits)

lemma run_append:
  "run (xs @ ys) s = (case run xs s of None \<Rightarrow> None | Some s' \<Rightarrow> run ys s')"
  by (induction xs arbitrary: s) (auto split: option.splits)

lemmas machine_defs =
  step_def runEffects_def shownToast_def appRendered_def trackingEffect_def setTimeout_def Let_def
  initial_system_def initial_booking_def clampPassengers_def maxPassengers_def
  handleFindRide_def handleFindRide_resolved_def currentRequest_def handlePayment_def capture_def
  handleCancelRide_def handleNewRide_def showToast_def completeRideAction_def onRideComplete_def
  initEta_def parseInt10_def firstWord_def isWhiteSpace_def isDigit_def
  sample_methods_def sample_offer_def sample_form_def sample_confirmed_def CANCELLATION_REASONS_def

lemma run_form:
  "run [SetPickup ''MG Road'', SetDestination ''Bus Stand''] (initial_system sample_methods) =
     Some form_system"
  by (simp add: form_system_def machine_defs)

lemma run_searching:
  "run searching_events (initial_system sample_methods) = Some searching_system"
  by (simp add: searching_events_def searching_system_def machine_defs)

lemma run_confirmed:
  "run confirmed_events (initial_system sample_methods) = Some confirmed_system"
  unfolding confirmed_events_def run_append run_searching
  by (simp add: searching_system_def confirmed_system_def machine_defs)

lemma run_cancelled:
  "run cancelled_while_paying (initial_system sample_methods) = Some cancelled_system"
  unfolding cancelled_while_paying_def run_append run_confirmed
  by (simp add: cancelled_system_def confirmed_system_def machine_defs)

lemma run_cancelled_after_drift:
  "run cancelled_after_drift (initial_system sample_methods) = Some drifted_cancelled_system"
  unfolding cancelled_after_drift_def run_append run_confirmed
  by (simp add: drifted_cancelled_system_def confirmed_system_def machine_defs moveTick_def)




text \<open>The effects leave the view alone when the status is not \<open>CONFIRMED\<close> afterwards.\<close>

lemma trackingEffect_view:
  "rideStatus (view s) \<noteq> CONFIRMED \<or> rideDetails (view s) = None \<Longrightarrow>
   view (trackingEffect s) = view s"
  by (auto simp: trackingEffect_def split: option.splits)

lemma runEffects_view:
  assumes "vehicle (view s1) = vehicle (view s0)"
    and "passengerCount (view s1) = passengerCount (view s0)"
    and "rideStatus (view s1) \<noteq> CONFIRMED \<or> rideDetails (view s1) = None \<or>
         (\<not> renewed \<and> \<not> appRendered s0 (shownToast s0 s1) \<and>
          rideStatus (view s1) = rideStatus (view s0) \<and> rideDetails (view s1) = rideDetails (view s0))"
  shows "view (runEffects renewed s0 s1) = view s1"
  using assms
  by (auto simp: runEffects_def Let_def shownToast_def trackingEffect_view)

lemma runEffects_toastMessage:
  "toastMessage (runEffects renewed s0 s1) = toastMessage (shownToast s0 s1)"
  by (simp add: runEffects_def Let_def trackingEffect_def split: option.splits)



lemma step_timers_hold_offers:
  assumes "step ev s = Some s'" and "timers_hold_offers s"
  shows "timers_hold_offers s'"
proof -
  from assms(1) have en: "enabled ev s" and s': "timeouts s' = timeouts (perform ev s)"
    by (auto simp: step_def runEffects_frame split: if_splits)
  show ?thesis
  proof (cases ev)
    case (Pay m)
    with en assms(2) show ?thesis
      unfolding timers_hold_offers_def s'
      by (auto simp: handlePayment_def setTimeout_def capture_def Let_def)
  next
    case GPayConfirm
    with en assms(2) show ?thesis
      unfolding timers_hold_offers_def s'
      by (auto simp: gpayHandlePay_def setTimeout_def capture_def)
  next
    case (TimeoutFires i)
    with assms(2) show ?thesis
      unfolding timers_hold_offers_def s'
      by (auto simp: list_all_iff dest: in_set_takeD in_set_dropD)
  qed (use assms(2) in \<open>auto simp: timers_hold_offers_def s' handler_defs split: prod.splits option.splits\<close>)
qed

lemma run_timers_hold_offers:
  "run evs s = Some s' \<Longrightarrow> timers_hold_offers s \<Longrightarrow> timers_hold_offers s'"
proof (induction evs arbitrary: s)
  case Nil
  then show ?case by simp
next
  case (Cons ev evs)
  then show ?case
    by (auto split: option.splits dest: step_timers_hold_offers)
qed

lemma reachable_timer_offer:
  assumes "run evs (initial_system pms) = Some s" and "i < length (timeouts s)"
  shows "seen_rideDetails (closureOf (snd (timeouts s ! i))) \<noteq> None"
proof -
  have "timers_hold_offers (initial_system pms)"
    by (simp add: timers_hold_offers_def initial_system_def)
  with assms(1) have "timers_hold_offers s" by (rule run_timers_hold_offers)
  with assms(2) show ?thesis
    by (simp add: timers_hold_offers_def list_all_length)
qed

text \<open>
  Claim C2, as stated, fails on the history \<open>cancelled_while_paying\<close>: it is a history of
  the orchestrator, it ends in the status \<open>IDLE\<close> (the ride was cancelled) with nothing
  handed to the history collaborator, and the card's timer, which the cancellation has
  not cleared, is due; when it fires, the status goes from \<open>IDLE\<close> to \<open>PAID\<close> and the
  cancelled ride is handed over as completed. So \<open>PAID\<close> is set by the completion of a
  payment that is performed while the status is \<open>IDLE\<close>, not \<open>CONFIRMED\<close>.
\<close>

theorem C2_paid_after_cancellation_counterexample:
  "run cancelled_while_paying (initial_system sample_methods) = Some cancelled_system \<and>
   rideStatus (view cancelled_system) = IDLE \<and>
   completedRides (view cancelled_system) = [] \<and>
   map_option (rideStatus \<circ> view) (step (TimeoutFires 0) cancelled_system) = Some PAID \<and>
   map_option (completedRides \<circ> view) (step (TimeoutFires 0) cancelled_system) =
     Some [\<lparr>ride_pickup = ''MG Road'', ride_destination = ''Bus Stand'',
            ride_details = sample_offer ''8 min''\<rparr>]"
  using run_cancelled by (simp add: cancelled_system_def machine_defs)

text \<open>
  Claim C2, amended. In every state that a history of the orchestrator reaches, the
  status is one of \<open>IDLE\<close>, \<open>SEARCHING\<close>, \<open>CONFIRMED\<close>, \<open>PAID\<close>, \<open>ERROR\<close>. The only event
  that changes the status to \<open>CONFIRMED\<close> is the successful completion of a pending
  search, and the only event that starts a search is the find-ride action, which
  leaves the status \<open>SEARCHING\<close>. The only event that changes the status to \<open>PAID\<close> is
  the firing of a pending payment timer, and the only events that set such a timer are
  the selection of a payment method, possible only while the status is \<open>CONFIRMED\<close> and
  an offer is present, and the confirmation in the Google Pay modal, which only such a
  selection opens. (Nothing is said about the status at the moment a completion
  arrives: neither a pending search nor a pending timer is cancelled when the status
  changes.)
\<close>

theorem C2_status_transitions:
  "(run evs (initial_system pms) = Some s \<longrightarrow>
      rideStatus (view s) \<in> {IDLE, SEARCHING, CONFIRMED, PAID, ERROR}) \<and>
   (step ev s0 = Some s1 \<and> rideStatus (view s1) = CONFIRMED \<and> rideStatus (view s0) \<noteq> CONFIRMED \<longrightarrow>
      (\<exists>origin uniqueRideId details. ev = SearchResolved origin uniqueRideId details) \<and>
      0 < searches s0) \<and>
   (step ev s0 = Some s1 \<and> searches s0 < searches s1 \<longrightarrow>
      ev = FindRide \<and> rideStatus (view s1) = SEARCHING) \<and>
   (step ev s0 = Some s1 \<and> rideStatus (view s1) = PAID \<and> rideStatus (view s0) \<noteq> PAID \<longrightarrow>
      (\<exists>i. ev = TimeoutFires i \<and> i < length (timeouts s0))) \<and>
   (step ev s0 = Some s1 \<and> length (timeouts s0) < length (timeouts s1) \<longrightarrow>
      (\<exists>m. ev = Pay m \<and> rideStatus (view s0) = CONFIRMED \<and> rideDetails (view s0) \<noteq> None) \<or>
      (ev = GPayConfirm \<and> isGPayModalOpen (view s0) \<and> rideDetails (view s0) \<noteq> None)) \<and>
   (step ev s0 = Some s1 \<and> isGPayModalOpen (view s1) \<and> \<not> isGPayModalOpen (view s0) \<longrightarrow>
      (\<exists>m. ev = Pay m \<and> method_type m = GOOGLE_PAY \<and> rideStatus (view s0) = CONFIRMED \<and>
           rideDetails (view s0) \<noteq> None))"
proof -
  have reach: "run evs (initial_system pms) = Some s \<longrightarrow>
      rideStatus (view s) \<in> {IDLE, SEARCHING, CONFIRMED, PAID, ERROR}"
  proof
    assume "run evs (initial_system pms) = Some s"
    moreover have "rideStatus (view (initial_system pms)) \<noteq> COMPLETED"
      by (simp add: initial_system_def initial_booking_def)
    ultimately have "rideStatus (view s) \<noteq> COMPLETED"
      by (rule run_not_completed)
    then show "rideStatus (view s) \<in> {IDLE, SEARCHING, CONFIRMED, PAID, ERROR}"
      by (cases "rideStatus (view s)") simp_all
  qed
  have confirmed: "step ev s0 = Some s1 \<and> rideStatus (view s1) = CONFIRMED \<and>
      rideStatus (view s0) \<noteq> CONFIRMED \<longrightarrow>
      (\<exists>origin uniqueRideId details. ev = SearchResolved origin uniqueRideId details) \<and>
      0 < searches s0"
    using perform_status_cases [of ev s0]
    by (auto simp: step_def runEffects_frame split: if_splits)
  have searching: "step ev s0 = Some s1 \<and> searches s0 < searches s1 \<longrightarrow>
      ev = FindRide \<and> rideStatus (view s1) = SEARCHING"
    using perform_searches [of s0 ev]
    by (auto simp: step_def runEffects_frame split: if_splits)
  have paid: "step ev s0 = Some s1 \<and> rideStatus (view s1) = PAID \<and> rideStatus (view s0) \<noteq> PAID \<longrightarrow>
      (\<exists>i. ev = TimeoutFires i \<and> i < length (timeouts s0))"
    using perform_status_cases [of ev s0]
    by (auto simp: step_def runEffects_frame split: if_splits)
  have paying: "step ev s0 = Some s1 \<and> length (timeouts s0) < length (timeouts s1) \<longrightarrow>
      (\<exists>m. ev = Pay m \<and> rideStatus (view s0) = CONFIRMED \<and> rideDetails (view s0) \<noteq> None) \<or>
      (ev = GPayConfirm \<and> isGPayModalOpen (view s0) \<and> rideDetails (view s0) \<noteq> None)"
    using perform_timeouts [of ev s0]
    by (auto simp: step_def runEffects_frame split: if_splits)
  have modal: "step ev s0 = Some s1 \<and> isGPayModalOpen (view s1) \<and> \<not> isGPayModalOpen (view s0) \<longrightarrow>
      (\<exists>m. ev = Pay m \<and> method_type m = GOOGLE_PAY \<and> rideStatus (view s0) = CONFIRMED \<and>
           rideDetails (view s0) \<noteq> None)"
    using perform_modal [of ev s0]
    by (auto simp: step_def runEffects_frame split: if_splits)
  from reach confirmed searching paid paying modal show ?thesis by blast
qed

theorem C2_status_transitions_witness:
  "rideStatus (view cancelled_system) \<in> {IDLE, SEARCHING, CONFIRMED, PAID, ERROR} \<and>
   0 < searches searching_system \<and>
   rideStatus (view (runEffects False form_system (perform FindRide form_system))) = SEARCHING \<and>
   0 < length (timeouts cancelled_system) \<and>
   rideStatus (view confirmed_system) = CONFIRMED \<and>
   method_type (sample_methods ! 2) = GOOGLE_PAY"
proof -
  let ?resolved = "SearchResolved ''https://chaloride.example'' ''1730628000000-k3x9q2a''
      (sample_offer ''8 min'')"
  let ?card = "Pay (sample_methods ! 1)" and ?gpay = "Pay (sample_methods ! 2)"
  have reach: "rideStatus (view cancelled_system) \<in> {IDLE, SEARCHING, CONFIRMED, PAID, ERROR}"
    using C2_status_transitions [of cancelled_while_paying sample_methods cancelled_system]
      run_cancelled by blast
  have "step ?resolved searching_system =
          Some (runEffects True searching_system (perform ?resolved searching_system)) \<and>
        rideStatus (view (runEffects True searching_system (perform ?resolved searching_system)))
          = CONFIRMED \<and>
        rideStatus (view searching_system) \<noteq> CONFIRMED"
    by (simp add: step_def runEffects_frame searching_system_def handleFindRide_def
        handleFindRide_resolved_def sample_form_def initial_booking_def)
  with C2_status_transitions [of _ _ _ ?resolved searching_system
      "runEffects True searching_system (perform ?resolved searching_system)"]
  have confirmed: "0 < searches searching_system" by blast
  have "step FindRide form_system =
          Some (runEffects False form_system (perform FindRide form_system)) \<and>
        searches form_system < searches (runEffects False form_system (perform FindRide form_system))"
    by (simp add: step_def runEffects_frame form_system_def initial_system_def handleFindRide_def
        sample_form_def initial_booking_def)
  with C2_status_transitions [of _ _ _ FindRide form_system
      "runEffects False form_system (perform FindRide form_system)"]
  have searching:
    "rideStatus (view (runEffects False form_system (perform FindRide form_system))) = SEARCHING"
    by blast
  have "step (TimeoutFires 0) cancelled_system =
          Some (runEffects False cancelled_system (perform (TimeoutFires 0) cancelled_system)) \<and>
        rideStatus (view (runEffects False cancelled_system (perform (TimeoutFires 0) cancelled_system)))
          = PAID \<and>
        rideStatus (view cancelled_system) \<noteq> PAID"
    by (simp add: step_def runEffects_frame cancelled_system_def handleCancelRide_def
        handleNewRide_def showToast_def completeRideAction_def onRideComplete_def
        split: option.splits)
  with C2_status_transitions [of _ _ _ "TimeoutFires 0" cancelled_system
      "runEffects False cancelled_system (perform (TimeoutFires 0) cancelled_system)"]
  have paid: "0 < length (timeouts cancelled_system)" by blast
  have "step ?card confirmed_system =
          Some (runEffects False confirmed_system (perform ?card confirmed_system)) \<and>
        length (timeouts confirmed_system)
          < length (timeouts (runEffects False confirmed_system (perform ?card confirmed_system)))"
    by (simp add: step_def runEffects_frame confirmed_system_def sample_confirmed_fields
        sample_methods_def handlePayment_def setTimeout_def Let_def initEta_def
        handleFindRide_resolved_def handleFindRide_def sample_confirmed_def sample_form_def
        initial_booking_def split: option.splits)
  with C2_status_transitions [of _ _ _ ?card confirmed_system
      "runEffects False confirmed_system (perform ?card confirmed_system)"]
  have paying: "rideStatus (view confirmed_system) = CONFIRMED" by blast
  have "step ?gpay confirmed_system =
          Some (runEffects False confirmed_system (perform ?gpay confirmed_system)) \<and>
        isGPayModalOpen (view (runEffects False confirmed_system (perform ?gpay confirmed_system))) \<and>
        \<not> isGPayModalOpen (view confirmed_system)"
    by (simp add: step_def runEffects_frame confirmed_system_def sample_confirmed_fields
        sample_methods_def handlePayment_def setTimeout_def Let_def initEta_def
        handleFindRide_resolved_def handleFindRide_def sample_confirmed_def sample_form_def
        initial_booking_def split: option.splits)
  with C2_status_transitions [of _ _ _ ?gpay confirmed_system
      "runEffects False confirmed_system (perform ?gpay confirmed_system)"]
  have modal: "method_type (sample_methods ! 2) = GOOGLE_PAY" by blast
  from reach confirmed searching paid paying modal show ?thesis by blast
qed


section \<open>Cancellation, payment and completion\<close>

text \<open>
  Claim C6, as stated, fails on the history \<open>cancelled_after_drift\<close>: the cancellation is
  committed with a reason of the list and the status is \<open>IDLE\<close>, but the ride bundle is
  not fully reset: the driver position stays at \<open>(41, 61)\<close>, where the drift left it,
  and not at its initial \<open>(40, 60)\<close>; the payment indicator still names the card; and the
  card's timer is still pending.
\<close>

theorem C6_cancellation_counterexample:
  "run cancelled_after_drift (initial_system sample_methods) = Some drifted_cancelled_system \<and>
   rideStatus (view drifted_cancelled_system) = IDLE \<and>
   driverPosition (view (initial_system sample_methods)) = \<lparr>pos_top = 40, pos_left = 60\<rparr> \<and>
   driverPosition (view drifted_cancelled_system) = \<lparr>pos_top = 41, pos_left = 61\<rparr> \<and>
   payingMethodId (view drifted_cancelled_system) = Some ''1'' \<and>
   timeouts drifted_cancelled_system =
     [(10000, CompleteRide (capture (sample_confirmed ''8 min'')))]"
  using run_cancelled_after_drift
  by (simp add: drifted_cancelled_system_def handleCancelRide_def handleNewRide_def showToast_def
      moveTick_def sample_confirmed_fields initial_system_def initial_booking_def)

text \<open>
  Claim C6, amended. There are five reasons. Committing the cancellation at the reason
  step with no reason selected changes nothing but the reminder it shows (the step is
  still the reason step and the status is what it was). Committing with a reason of the
  list succeeds (in the view: whenever the commit control is enabled): it shows the
  cancellation notice and then does exactly what starting a new ride does, which
  leaves the status \<open>IDLE\<close> and the offer, \<open>dynamicEta\<close>, the tracking link and the
  cancellation state cleared, and leaves the driver position, the payment indicator,
  the flag of the Google Pay modal and the pending payment timers as they were.
\<close>

theorem C6_cancellation_commit:
  "length CANCELLATION_REASONS = 5 \<and>
   (cancellationStep b = step_reason \<and> cancellationReason b = [] \<longrightarrow>
      handleCancelRide b = b\<lparr>toasts := toasts b @ [''Please select a reason.'']\<rparr> \<and>
      cancellationStep (handleCancelRide b) = step_reason \<and>
      rideStatus (handleCancelRide b) = rideStatus b) \<and>
   (cancellationReason b \<in> set CANCELLATION_REASONS \<longrightarrow>
      handleCancelRide b = handleNewRide (b\<lparr>toasts := toasts b @ [''Your ride has been cancelled.'']\<rparr>) \<and>
      toasts (handleCancelRide b) = toasts b @ [''Your ride has been cancelled.''] \<and>
      rideStatus (handleCancelRide b) = IDLE \<and>
      rideDetails (handleCancelRide b) = None \<and>
      dynamicEta (handleCancelRide b) = None \<and>
      rideTrackingLink (handleCancelRide b) = None \<and>
      cancellationStep (handleCancelRide b) = step_idle \<and>
      cancellationReason (handleCancelRide b) = [] \<and>
      driverPosition (handleCancelRide b) = driverPosition b \<and>
      payingMethodId (handleCancelRide b) = payingMethodId b \<and>
      isGPayModalOpen (handleCancelRide b) = isGPayModalOpen b) \<and>
   (step ConfirmCancellation s = Some s1 \<longrightarrow>
      view s1 = handleNewRide ((view s)\<lparr>toasts := toasts (view s) @ [''Your ride has been cancelled.'']\<rparr>) \<and>
      toastMessage s1 = Some ''Your ride has been cancelled.'' \<and>
      timeouts s1 = timeouts s)"
proof -
  have handler: "length CANCELLATION_REASONS = 5 \<and>
   (cancellationStep b = step_reason \<and> cancellationReason b = [] \<longrightarrow>
      handleCancelRide b = b\<lparr>toasts := toasts b @ [''Please select a reason.'']\<rparr> \<and>
      cancellationStep (handleCancelRide b) = step_reason \<and>
      rideStatus (handleCancelRide b) = rideStatus b) \<and>
   (cancellationReason b \<in> set CANCELLATION_REASONS \<longrightarrow>
      handleCancelRide b = handleNewRide (b\<lparr>toasts := toasts b @ [''Your ride has been cancelled.'']\<rparr>) \<and>
      toasts (handleCancelRide b) = toasts b @ [''Your ride has been cancelled.''] \<and>
      rideStatus (handleCancelRide b) = IDLE \<and>
      rideDetails (handleCancelRide b) = None \<and>
      dynamicEta (handleCancelRide b) = None \<and>
      rideTrackingLink (handleCancelRide b) = None \<and>
      cancellationStep (handleCancelRide b) = step_idle \<and>
      cancellationReason (handleCancelRide b) = [] \<and>
      driverPosition (handleCancelRide b) = driverPosition b \<and>
      payingMethodId (handleCancelRide b) = payingMethodId b \<and>
      isGPayModalOpen (handleCancelRide b) = isGPayModalOpen b)"
    by (auto simp add: handleCancelRide_def handleNewRide_def showToast_def CANCELLATION_REASONS_def)
  have machine: "step ConfirmCancellation s = Some s1 \<longrightarrow>
      view s1 = handleNewRide ((view s)\<lparr>toasts := toasts (view s) @ [''Your ride has been cancelled.'']\<rparr>) \<and>
      toastMessage s1 = Some ''Your ride has been cancelled.'' \<and>
      timeouts s1 = timeouts s"
  proof
    assume st: "step ConfirmCancellation s = Some s1"
    then have en: "cancellationStep (view s) = step_reason" "cancellationReason (view s) \<noteq> []"
      and s1: "s1 = runEffects False s (s\<lparr>view := handleCancelRide (view s)\<rparr>)"
      by (auto simp: step_def split: if_splits)
    from en have h: "handleCancelRide (view s) =
        handleNewRide ((view s)\<lparr>toasts := toasts (view s) @ [''Your ride has been cancelled.'']\<rparr>)"
      by (simp add: handleCancelRide_def showToast_def)
    have "view s1 = handleCancelRide (view s)"
      unfolding s1 by (subst runEffects_view) (simp_all add: h handleNewRide_def)
    moreover have "toastMessage s1 = Some ''Your ride has been cancelled.''"
      unfolding s1 runEffects_toastMessage by (simp add: shownToast_def h handleNewRide_def)
    moreover have "timeouts s1 = timeouts s"
      unfolding s1 by (simp add: runEffects_frame)
    ultimately show "view s1 = handleNewRide ((view s)\<lparr>toasts := toasts (view s) @ [''Your ride has been cancelled.'']\<rparr>) \<and>
      toastMessage s1 = Some ''Your ride has been cancelled.'' \<and>
      timeouts s1 = timeouts s"
      using h by simp
  qed
  from handler machine show ?thesis by blast
qed


theorem C6_cancellation_commit_witness:
  "handleCancelRide sample_reason_step =
     sample_reason_step\<lparr>toasts := [''Please select a reason.'']\<rparr> \<and>
   cancellationStep (handleCancelRide sample_reason_step) = step_reason \<and>
   rideStatus (handleCancelRide sample_reason_step) = CONFIRMED \<and>
   rideStatus (handleCancelRide (sample_reason_step\<lparr>cancellationReason := ''Changed my mind''\<rparr>)) = IDLE \<and>
   rideDetails (handleCancelRide (sample_reason_step\<lparr>cancellationReason := ''Changed my mind''\<rparr>)) = None \<and>
   toasts (handleCancelRide (sample_reason_step\<lparr>cancellationReason := ''Changed my mind''\<rparr>))
     = [''Your ride has been cancelled.''] \<and>
   driverPosition (handleCancelRide (sample_reason_step\<lparr>cancellationReason := ''Changed my mind''\<rparr>))
     = \<lparr>pos_top = 40, pos_left = 60\<rparr> \<and>
   step ConfirmCancellation committing_system = Some drifted_cancelled_system \<and>
   timeouts drifted_cancelled_system = timeouts committing_system"
proof -
  have unselected: "cancellationStep sample_reason_step = step_reason \<and>
      cancellationReason sample_reason_step = []"
    by (simp add: sample_reason_step_def sample_confirmed_fields)
  have selected: "cancellationReason (sample_reason_step\<lparr>cancellationReason := ''Changed my mind''\<rparr>)
      \<in> set CANCELLATION_REASONS"
    by (simp add: CANCELLATION_REASONS_def)
  have before: "toasts sample_reason_step = []" "rideStatus sample_reason_step = CONFIRMED"
    "driverPosition sample_reason_step = \<lparr>pos_top = 40, pos_left = 60\<rparr>"
    by (simp_all add: sample_reason_step_def sample_confirmed_fields)
  note no_reason = C6_cancellation_commit [of sample_reason_step,
      THEN conjunct2, THEN conjunct1, rule_format, OF unselected]
  note with_reason = C6_cancellation_commit
      [of "sample_reason_step\<lparr>cancellationReason := ''Changed my mind''\<rparr>",
       THEN conjunct2, THEN conjunct2, THEN conjunct1, rule_format, OF selected]
  have rejected: "handleCancelRide sample_reason_step =
        sample_reason_step\<lparr>toasts := [''Please select a reason.'']\<rparr>"
      "cancellationStep (handleCancelRide sample_reason_step) = step_reason"
      "rideStatus (handleCancelRide sample_reason_step) = CONFIRMED"
    using no_reason before by auto
  have committed:
      "rideStatus (handleCancelRide (sample_reason_step\<lparr>cancellationReason := ''Changed my mind''\<rparr>)) = IDLE"
      "rideDetails (handleCancelRide (sample_reason_step\<lparr>cancellationReason := ''Changed my mind''\<rparr>)) = None"
      "toasts (handleCancelRide (sample_reason_step\<lparr>cancellationReason := ''Changed my mind''\<rparr>)) =
         [''Your ride has been cancelled.'']"
      "driverPosition (handleCancelRide (sample_reason_step\<lparr>cancellationReason := ''Changed my mind''\<rparr>))
         = \<lparr>pos_top = 40, pos_left = 60\<rparr>"
    using with_reason before by auto
  have stepped: "step ConfirmCancellation committing_system = Some drifted_cancelled_system"
    by (simp add: committing_system_def drifted_cancelled_system_def machine_defs moveTick_def)
  note in_view = C6_cancellation_commit [of _ committing_system drifted_cancelled_system,
      THEN conjunct2, THEN conjunct2, THEN conjunct2, rule_format, OF stepped]
  then have kept: "timeouts drifted_cancelled_system = timeouts committing_system"
    by simp
  show ?thesis
    using rejected committed stepped kept by blast
qed






text \<open>
  Claim C10, as stated, fails on the history \<open>cancelled_while_paying\<close>: it ends in a state
  in which no offer is present (\<open>rideDetails\<close> is null) and the card's timer is pending;
  the completion that this timer runs hands the cancelled ride to the history
  collaborator all the same, because it reads the offer that its closure captured when
  the card was selected, not the offer of the moment at which it runs.
\<close>

theorem C10_emission_counterexample:
  "run cancelled_while_paying (initial_system sample_methods) = Some cancelled_system \<and>
   rideDetails (view cancelled_system) = None \<and>
   timeouts cancelled_system = [(10000, CompleteRide (capture (sample_confirmed ''8 min'')))] \<and>
   completedRides (view cancelled_system) = [] \<and>
   completedRides
     (runCallback (CompleteRide (capture (sample_confirmed ''8 min''))) (view cancelled_system)) =
     [\<lparr>ride_pickup = ''MG Road'', ride_destination = ''Bus Stand'',
       ride_details = sample_offer ''8 min''\<rparr>]"
  using run_cancelled
  by (simp add: cancelled_system_def handleCancelRide_def handleNewRide_def showToast_def
      completeRideAction_def onRideComplete_def capture_def sample_confirmed_fields)

text \<open>
  Claim C10, amended. Whether the completion hands a record to the history collaborator
  depends on the offer that its closure captured when the payment was selected or
  confirmed, not on the offer present when it runs: with a captured offer it hands
  over one record, with none it hands over nothing. The status becomes \<open>PAID\<close> and the
  payment indicator, \<open>dynamicEta\<close> and the modal are cleared in either case. In every
  state that a history reaches, every pending completion has captured an offer.
\<close>

theorem C10_completion_by_captured_offer:
  "completedRides (completeRideAction c b) =
     completedRides b @
       (case seen_rideDetails c of
          None \<Rightarrow> []
        | Some d \<Rightarrow> [\<lparr>ride_pickup = seen_pickup c, ride_destination = seen_destination c,
                       ride_details = d\<rparr>]) \<and>
   rideStatus (completeRideAction c b) = PAID \<and>
   payingMethodId (completeRideAction c b) = None \<and>
   dynamicEta (completeRideAction c b) = None \<and>
   isGPayModalOpen (completeRideAction c b) = False \<and>
   (run evs (initial_system pms) = Some s \<and> i < length (timeouts s) \<longrightarrow>
      seen_rideDetails (closureOf (snd (timeouts s ! i))) \<noteq> None)"
  using reachable_timer_offer [of evs pms s i]
  by (simp add: completeRideAction_def onRideComplete_def split: option.splits)

theorem C10_completion_by_captured_offer_witness:
  "seen_rideDetails (closureOf (snd (timeouts cancelled_system ! 0))) \<noteq> None \<and>
   rideDetails (view cancelled_system) = None \<and>
   completedRides
     (completeRideAction (capture (sample_confirmed ''8 min'')) (view cancelled_system)) =
     [\<lparr>ride_pickup = ''MG Road'', ride_destination = ''Bus Stand'',
       ride_details = sample_offer ''8 min''\<rparr>] \<and>
   rideStatus (completeRideAction (capture (sample_confirmed ''8 min'')) (view cancelled_system)) = PAID"
proof -
  have pending: "run cancelled_while_paying (initial_system sample_methods) = Some cancelled_system \<and>
      0 < length (timeouts cancelled_system)"
    using run_cancelled by (simp add: cancelled_system_def)
  note inst = C10_completion_by_captured_offer [of "capture (sample_confirmed ''8 min'')"
      "view cancelled_system" cancelled_while_paying sample_methods cancelled_system 0]
  from inst pending have offer: "seen_rideDetails (closureOf (snd (timeouts cancelled_system ! 0))) \<noteq> None"
    by blast
  have empty: "completedRides (view cancelled_system) = []" "rideDetails (view cancelled_system) = None"
    by (simp_all add: cancelled_system_def handleCancelRide_def handleNewRide_def showToast_def
        sample_confirmed_fields)
  from inst have "completedRides
     (completeRideAction (capture (sample_confirmed ''8 min'')) (view cancelled_system)) =
     [\<lparr>ride_pickup = ''MG Road'', ride_destination = ''Bus Stand'',
       ride_details = sample_offer ''8 min''\<rparr>] \<and>
   rideStatus (completeRideAction (capture (sample_confirmed ''8 min'')) (view cancelled_system)) = PAID"
    by (simp add: empty capture_def sample_confirmed_fields)
  with offer empty show ?thesis by blast
qed


section \<open>Properties of the fare estimator\<close>

lemmas est_defs = trigger_def debounceFires_def estimateResolved_def estimateRejected_def setRequest_def
  currentRequest_def

lemma est_run_append:
  "est_run (xs @ ys) s = (case est_run xs s of None \<Rightarrow> None | Some s' \<Rightarrow> est_run ys s')"
  by (induction xs arbitrary: s) (auto split: option.splits)

text \<open>While the timer is not yet due and no call is in flight, only time passes.\<close>

lemma est_run_pending:
  "est_run evs s = Some s' \<Longrightarrow> list_all quiet evs \<Longrightarrow> inflight s = [] \<Longrightarrow>
   debounce s = Some (due, r) \<Longrightarrow> clock s + elapsed evs < due \<Longrightarrow>
   s' = s\<lparr>clock := clock s + elapsed evs\<rparr>"
proof (induction evs arbitrary: s)
  case Nil then show ?case by simp
next
  case (Cons ev evs)
  show ?case
  proof (cases ev)
    case (Wait dt)
    with Cons.prems have run: "est_run evs (s\<lparr>clock := clock s + dt\<rparr>) = Some s'" by simp
    from Cons.IH [OF run] Cons.prems Wait show ?thesis by (simp add: add.assoc)
  qed (use Cons.prems in \<open>auto split: if_splits\<close>)
qed

lemma debounceFires_fields:
  assumes "debounce s = Some (due, r)"
  shows "debounce (debounceFires s) = None"
    and "currentRequest (form (debounceFires s)) = currentRequest (form s)"
    and "written (debounceFires s) = written s"
    and "fareEstimate (form (debounceFires s)) = None"
    and "inflight (debounceFires s) =
      (if length (req_pickup r) > 2 \<and> length (req_destination r) > 2
       then inflight s @ [r] else inflight s)"
    and "issued (debounceFires s) =
      (if length (req_pickup r) > 2 \<and> length (req_destination r) > 2
       then issued s @ [r] else issued s)"
  using assms by (simp_all add: debounceFires_def currentRequest_def)

lemma estimateResolved_fields:
  "debounce (estimateResolved i e s) = debounce s"
  "currentRequest (form (estimateResolved i e s)) = currentRequest (form s)"
  "written (estimateResolved i e s) = written s @ [(inflight s ! i, e)]"
  "fareEstimate (form (estimateResolved i e s)) = Some e"
  "inflight (estimateResolved i e s) = take i (inflight s) @ drop (Suc i) (inflight s)"
  "issued (estimateResolved i e s) = issued s"
  by (simp_all add: estimateResolved_def currentRequest_def)

lemma estimateRejected_fields:
  "debounce (estimateRejected i s) = debounce s"
  "currentRequest (form (estimateRejected i s)) = currentRequest (form s)"
  "written (estimateRejected i s) = written s"
  "fareEstimate (form (estimateRejected i s)) = fareEstimate (form s)"
  "inflight (estimateRejected i s) = take i (inflight s) @ drop (Suc i) (inflight s)"
  "issued (estimateRejected i s) = issued s"
  by (simp_all add: estimateRejected_def currentRequest_def)

lemma est_step_after_last_trigger:
  assumes "quiet ev" and step: "est_step ev t = Some t'" and inv: "after_last_trigger B s t"
  shows "after_last_trigger B s t'"
proof (cases ev)
  case (Trigger r)
  with assms show ?thesis by simp
next
  case (Wait dt)
  with step have "t' = t\<lparr>clock := clock t + dt\<rparr>" by simp
  with inv show ?thesis by (simp add: after_last_trigger_def)
next
  case DebounceFires
  with step obtain due r where pending: "debounce t = Some (due, r)" and t': "t' = debounceFires t"
    by (auto split: option.splits if_splits)
  with inv have "r = B" "inflight t = []" "issued t = issued s" "written t = written s"
      "currentRequest (form t) = B"
    by (auto simp: after_last_trigger_def)
  then show ?thesis
    unfolding t' after_last_trigger_def using debounceFires_fields [OF pending]
    by simp
next
  case (EstimateResolved i e)
  with step have i: "i < length (inflight t)" and t': "t' = estimateResolved i e t"
    by (auto split: if_splits)
  with inv have "i = 0" "inflight t = [B]" "issued t = issued s @ [B]" "written t = written s"
      "currentRequest (form t) = B" "debounce t = None"
    by (auto simp: after_last_trigger_def)
  then show ?thesis
    unfolding t' after_last_trigger_def by (simp add: estimateResolved_fields)
next
  case (EstimateRejected i)
  with step have i: "i < length (inflight t)" and t': "t' = estimateRejected i t"
    by (auto split: if_splits)
  with inv have "i = 0" "inflight t = [B]" "issued t = issued s @ [B]" "written t = written s"
      "currentRequest (form t) = B" "debounce t = None" "fareEstimate (form t) = None"
    by (auto simp: after_last_trigger_def)
  then show ?thesis
    unfolding t' after_last_trigger_def by (simp add: estimateRejected_fields)
qed

lemma est_run_after_last_trigger:
  "list_all quiet evs \<Longrightarrow> est_run evs t = Some t' \<Longrightarrow> after_last_trigger B s t \<Longrightarrow> after_last_trigger B s t'"
proof (induction evs arbitrary: t)
  case Nil then show ?case by simp
next
  case (Cons ev evs)
  then show ?case by (auto split: option.splits dest: est_step_after_last_trigger)
qed

lemma two_triggers_debounced:
  assumes quiet1: "list_all quiet evs1" and quiet2: "list_all quiet evs2"
    and idle: "inflight s = []" and soon: "elapsed evs1 < 500"
    and run: "est_run (Trigger A # evs1 @ Trigger B # evs2) s = Some s'"
  shows "after_last_trigger B s s'"
proof -
  from run have stepA: "est_run (evs1 @ Trigger B # evs2) (trigger A s) = Some s'"
    by (simp split: if_splits)
  then obtain s1 where run1: "est_run evs1 (trigger A s) = Some s1"
    and rest: "est_run (Trigger B # evs2) s1 = Some s'"
    by (auto simp: est_run_append split: option.splits)
  have "s1 = (trigger A s)\<lparr>clock := clock (trigger A s) + elapsed evs1\<rparr>"
    using run1 quiet1
  proof (rule est_run_pending)
    show "inflight (trigger A s) = []" using idle by (simp add: trigger_def)
    show "debounce (trigger A s) = Some (clock s + 500, A)" by (simp add: trigger_def)
    show "clock (trigger A s) + elapsed evs1 < clock s + 500" using soon by (simp add: trigger_def)
  qed
  then have s1: "inflight s1 = []" "issued s1 = issued s" "written s1 = written s"
    "fareEstimate (form s1) = fareEstimate (form s)"
    using idle by (simp_all add: est_defs)
  from rest have run2: "est_run evs2 (trigger B s1) = Some s'"
    by (simp split: if_splits)
  have "after_last_trigger B s (trigger B s1)"
    using s1 by (simp add: after_last_trigger_def est_defs)
  with quiet2 run2 show ?thesis by (rule est_run_after_last_trigger)
qed

lemma est_run_late_response:
  "est_run late_response (initial_estimator sample_methods) = Some stale_estimator"
  by (simp add: late_response_def initial_estimator_def stale_estimator_def request_to_def
      est_defs initial_booking_def)

lemma est_run_debounced_pair:
  "est_run debounced_pair (initial_estimator sample_methods) = Some debounced_estimator"
  by (simp add: debounced_pair_def initial_estimator_def debounced_estimator_def request_to_def
      est_defs initial_booking_def)

lemma answers_within_issue:
  assumes "answers_within [] s t" and "written t' = written t"
    and "inflight t' = inflight t @ [r]"
  shows "answers_within [r] s t'"
  using assms by (auto simp: answers_within_def)

lemma answers_within_answer:
  assumes inv: "answers_within own s t" and i: "i < length (inflight t)"
    and w: "written t' = written t @ [(inflight t ! i, e)]"
    and f: "inflight t' = take i (inflight t) @ drop (Suc i) (inflight t)"
  shows "answers_within own s t'"
proof -
  from inv have pre: "take (length (written s)) (written t) = written s"
    by (simp add: answers_within_def)
  then have len: "length (written s) \<le> length (written t)"
    by (metis length_take min.cobounded1)
  have sub: "set (take i (inflight t)) \<union> set (drop (Suc i) (inflight t)) \<subseteq> set (inflight t)"
    using set_take_subset set_drop_subset by (metis Un_least)
  have nth: "inflight t ! i \<in> set (inflight t)" using i by simp
  from inv have bound: "set (map fst (drop (length (written s)) (written t))) \<union> set (inflight t)
        \<subseteq> set (inflight s) \<union> set own"
    and count: "length (written t) + length (inflight t)
        \<le> length (written s) + length (inflight s) + length own"
    by (simp_all add: answers_within_def)
  have "take (length (written s)) (written t') = written s"
    using pre len by (simp add: w)
  moreover have "set (map fst (drop (length (written s)) (written t'))) \<union> set (inflight t')
        \<subseteq> set (inflight s) \<union> set own"
    using bound sub nth len by (auto simp: w f)
  moreover have "length (written t') + length (inflight t')
        \<le> length (written s) + length (inflight s) + length own"
    using count i by (simp add: w f)
  ultimately show ?thesis by (simp add: answers_within_def)
qed

lemma answers_within_drop:
  assumes inv: "answers_within own s t" and i: "i < length (inflight t)"
    and w: "written t' = written t"
    and f: "inflight t' = take i (inflight t) @ drop (Suc i) (inflight t)"
  shows "answers_within own s t'"
proof -
  have sub: "set (take i (inflight t)) \<union> set (drop (Suc i) (inflight t)) \<subseteq> set (inflight t)"
    using set_take_subset set_drop_subset by (metis Un_least)
  from inv sub i show ?thesis
    by (auto simp: answers_within_def w f)
qed

text \<open>While the timer is not yet due, it stays, and no call is issued.\<close>

lemma est_step_timer_pending:
  assumes "quiet ev" and step: "est_step ev t = Some t'"
    and pending: "debounce t = Some (due, r)" and early: "clock t + elapsed [ev] < due"
    and inv: "answers_within [] s t"
  shows "debounce t' = Some (due, r) \<and> issued t' = issued t \<and>
    clock t' = clock t + elapsed [ev] \<and>
    currentRequest (form t') = currentRequest (form t) \<and> answers_within [] s t'"
proof (cases ev)
  case (Trigger r)
  with assms show ?thesis by simp
next
  case (Wait dt)
  with step have t': "t' = t\<lparr>clock := clock t + dt\<rparr>" by simp
  with inv pending Wait show ?thesis by (simp add: answers_within_def)
next
  case DebounceFires
  with step pending early show ?thesis by simp
next
  case (EstimateResolved i e)
  with step have i: "i < length (inflight t)" and t': "t' = estimateResolved i e t"
    by (auto split: if_splits)
  have "answers_within [] s t'"
    using inv i unfolding t' by (rule answers_within_answer) (simp_all add: estimateResolved_fields)
  with pending EstimateResolved show ?thesis
    unfolding t' by (simp add: estimateResolved_fields estimateResolved_def currentRequest_def)
next
  case (EstimateRejected i)
  with step have i: "i < length (inflight t)" and t': "t' = estimateRejected i t"
    by (auto split: if_splits)
  have "answers_within [] s t'"
    using inv i unfolding t' by (rule answers_within_drop) (simp_all add: estimateRejected_fields)
  with pending EstimateRejected show ?thesis
    unfolding t' by (simp add: estimateRejected_fields estimateRejected_def currentRequest_def)
qed

lemma elapsed_Cons: "elapsed (ev # evs) = elapsed [ev] + elapsed evs"
  by (cases ev) simp_all

lemma est_run_timer_pending:
  "est_run evs t = Some t' \<Longrightarrow> list_all quiet evs \<Longrightarrow> debounce t = Some (due, r) \<Longrightarrow>
   clock t + elapsed evs < due \<Longrightarrow> answers_within [] s t \<Longrightarrow>
   debounce t' = Some (due, r) \<and> issued t' = issued t \<and>
   currentRequest (form t') = currentRequest (form t) \<and> answers_within [] s t'"
proof (induction evs arbitrary: t)
  case Nil then show ?case by simp
next
  case (Cons ev evs)
  from Cons.prems(1) obtain t1 where step: "est_step ev t = Some t1"
    and run: "est_run evs t1 = Some t'"
    by (auto split: option.splits)
  from Cons.prems(2) have q: "quiet ev" and qs: "list_all quiet evs" by simp_all
  from Cons.prems(4) have early: "clock t + elapsed [ev] + elapsed evs < due"
    by (subst (asm) elapsed_Cons) simp
  then have early1: "clock t + elapsed [ev] < due" by simp
  note one = est_step_timer_pending [OF q step Cons.prems(3) early1 Cons.prems(5)]
  from one early have early2: "clock t1 + elapsed evs < due" by simp
  from Cons.IH [OF run qs _ early2] one show ?case by simp
qed

lemma est_step_calls_after_last_trigger:
  assumes "quiet ev" and step: "est_step ev t = Some t'" and inv: "calls_after_last_trigger B s t"
  shows "calls_after_last_trigger B s t'"
proof (cases ev)
  case (Trigger r)
  with assms show ?thesis by simp
next
  case (Wait dt)
  with step have t': "t' = t\<lparr>clock := clock t + dt\<rparr>" by simp
  have "answers_within own s t' = answers_within own s t" for own
    unfolding t' by (simp add: answers_within_def)
  with inv show ?thesis
    unfolding calls_after_last_trigger_def t' by (auto split: option.splits)
next
  case DebounceFires
  with step obtain due r where pending: "debounce t = Some (due, r)" and t': "t' = debounceFires t"
    by (auto split: option.splits if_splits)
  with inv have facts: "r = B" "issued t = issued s" "currentRequest (form t) = B"
    "answers_within [] s t"
    by (auto simp: calls_after_last_trigger_def)
  note f = debounceFires_fields [OF pending]
  show ?thesis
  proof (cases "length (req_pickup r) > 2 \<and> length (req_destination r) > 2")
    case True
    from True facts(1) have long: "length (req_pickup B) > 2 \<and> length (req_destination B) > 2"
      by simp
    have "answers_within [B] s t'"
      using facts(4) unfolding t'
      by (rule answers_within_issue) (simp_all add: f [unfolded facts(1)] long)
    with facts True show ?thesis
      unfolding calls_after_last_trigger_def t' by (simp add: f)
  next
    case False
    have "answers_within [] s t'"
      unfolding t' using facts(4) by (simp add: f False answers_within_def)
    with facts False show ?thesis
      unfolding calls_after_last_trigger_def t' by (auto simp: f)
  qed
next
  case (EstimateResolved i e)
  with step have i: "i < length (inflight t)" and t': "t' = estimateResolved i e t"
    by (auto split: if_splits)
  have keep: "answers_within own s t'" if "answers_within own s t" for own
    using that i unfolding t' by (rule answers_within_answer) (simp_all add: estimateResolved_fields)
  with inv show ?thesis
    unfolding calls_after_last_trigger_def t'
    by (auto simp: estimateResolved_fields split: option.splits)
next
  case (EstimateRejected i)
  with step have i: "i < length (inflight t)" and t': "t' = estimateRejected i t"
    by (auto split: if_splits)
  have keep: "answers_within own s t'" if "answers_within own s t" for own
    using that i unfolding t' by (rule answers_within_drop) (simp_all add: estimateRejected_fields)
  with inv show ?thesis
    unfolding calls_after_last_trigger_def t'
    by (auto simp: estimateRejected_fields split: option.splits)
qed

lemma est_run_calls_after_last_trigger:
  "list_all quiet evs \<Longrightarrow> est_run evs t = Some t' \<Longrightarrow> calls_after_last_trigger B s t \<Longrightarrow>
   calls_after_last_trigger B s t'"
proof (induction evs arbitrary: t)
  case Nil then show ?case by simp
next
  case (Cons ev evs)
  then show ?case by (auto split: option.splits dest: est_step_calls_after_last_trigger)
qed

lemma two_triggers_calls:
  assumes quiet1: "list_all quiet evs1" and quiet2: "list_all quiet evs2"
    and soon: "elapsed evs1 < 500"
    and run: "est_run (Trigger A # evs1 @ Trigger B # evs2) s = Some s'"
  shows "calls_after_last_trigger B s s'"
proof -
  from run have stepA: "est_run (evs1 @ Trigger B # evs2) (trigger A s) = Some s'"
    by (simp split: if_splits)
  then obtain s1 where run1: "est_run evs1 (trigger A s) = Some s1"
    and rest: "est_run (Trigger B # evs2) s1 = Some s'"
    by (auto simp: est_run_append split: option.splits)
  have "debounce s1 = Some (clock s + 500, A) \<and> issued s1 = issued (trigger A s) \<and>
    currentRequest (form s1) = currentRequest (form (trigger A s)) \<and> answers_within [] s s1"
    using run1 quiet1
  proof (rule est_run_timer_pending)
    show "debounce (trigger A s) = Some (clock s + 500, A)" by (simp add: trigger_def)
    show "clock (trigger A s) + elapsed evs1 < clock s + 500" using soon by (simp add: trigger_def)
    show "answers_within [] s (trigger A s)" by (simp add: trigger_def answers_within_def)
  qed
  then have s1: "issued s1 = issued s" "answers_within [] s s1"
    by (simp_all add: trigger_def)
  from rest have run2: "est_run evs2 (trigger B s1) = Some s'"
    by (simp split: if_splits)
  have "answers_within [] s (trigger B s1)"
    using s1(2) by (simp add: trigger_def answers_within_def)
  then have "calls_after_last_trigger B s (trigger B s1)"
    using s1(1) by (simp add: calls_after_last_trigger_def est_defs)
  with quiet2 run2 show ?thesis by (rule est_run_calls_after_last_trigger)
qed

lemma est_run_inflight:
  "est_run [Trigger (request_to ''Fort''), Wait 500, DebounceFires, Wait 100]
     (initial_estimator sample_methods) = Some inflight_estimator"
  by (simp add: initial_estimator_def inflight_estimator_def request_to_def
      est_defs initial_booking_def)

lemma est_run_from_inflight:
  "est_run (Trigger (request_to ''Bus'') # [Wait 100] @ Trigger (request_to ''Bus Stand'') #
       [Wait 500, DebounceFires, EstimateResolved 1 \<lparr>estimatedFare = ''120''\<rparr>,
        EstimateResolved 0 \<lparr>estimatedFare = ''45''\<rparr>]) inflight_estimator = Some stale_estimator"
  by (simp add: inflight_estimator_def stale_estimator_def request_to_def
      est_defs initial_booking_def)

text \<open>
  Claim C3, as stated, fails on the history \<open>late_response\<close>. The request for \<open>Fort\<close> is
  issued and still in flight when the trigger \<open>A\<close> (destination \<open>Bus\<close>) and, 100 ms
  later, the trigger \<open>B\<close> (destination \<open>Bus Stand\<close>) arrive. \<open>A\<close> is cancelled and \<open>B\<close>
  is issued and answered with 120; then the answer 45 to the request for \<open>Fort\<close>
  arrives and is written over it: the estimate shown in the end is derived from inputs
  other than \<open>B\<close>'s, a stale estimate written over the result of a fresher request.
\<close>

theorem C3_stale_estimate_counterexample:
  "est_run late_response (initial_estimator sample_methods) = Some stale_estimator \<and>
   currentRequest (form stale_estimator) = request_to ''Bus Stand'' \<and>
   issued stale_estimator = [request_to ''Fort'', request_to ''Bus Stand''] \<and>
   written stale_estimator =
     [(request_to ''Bus Stand'', \<lparr>estimatedFare = ''120''\<rparr>),
      (request_to ''Fort'', \<lparr>estimatedFare = ''45''\<rparr>)] \<and>
   fareEstimate (form stale_estimator) = Some \<lparr>estimatedFare = ''45''\<rparr> \<and>
   request_to ''Fort'' \<noteq> request_to ''Bus Stand''"
  using est_run_late_response
  by (simp add: stale_estimator_def request_to_def setRequest_def currentRequest_def)

text \<open>
  Claim C3, amended. Let the trigger \<open>B\<close> arrive less than 500 ms after the trigger \<open>A\<close>,
  and let no further trigger follow. Then, whatever time passes and whatever responses
  arrive, and whatever calls were in flight when \<open>A\<close> arrived: the computation for \<open>A\<close>
  is cancelled entirely (the only timer that can be pending is \<open>B\<close>'s, and no call is
  issued for \<open>A\<close>); at most one outbound call is issued, and it carries \<open>B\<close>'s inputs;
  and every estimate written is the answer to that call or to a call that was already
  in flight when \<open>A\<close> arrived, each call answered at most once. A call that is already
  in flight is not cancelled by a trigger: its answer is written when it arrives, also
  over the answer to \<open>B\<close>'s call. So only if no call was in flight when \<open>A\<close> arrived: at
  most one estimate is written, and it is the answer to \<open>B\<close>'s call; and once \<open>B\<close>'s
  timer has fired, the estimate shown is either none or that answer.
\<close>

theorem C3_debounce:
  assumes "list_all quiet evs1" and "elapsed evs1 < 500"
    and "list_all quiet evs2"
    and "est_run (Trigger A # evs1 @ Trigger B # evs2) s = Some s'"
  shows "(issued s' = issued s \<or> issued s' = issued s @ [B]) \<and>
    (debounce s' = None \<or> (\<exists>due. debounce s' = Some (due, B))) \<and>
    (\<exists>ws. written s' = written s @ ws \<and>
       set (map fst ws) \<subseteq> set (inflight s) \<union> {B} \<and>
       length ws \<le> length (inflight s) + 1) \<and>
    (inflight s = [] \<longrightarrow>
       (written s' = written s \<or> (\<exists>estimate. written s' = written s @ [(B, estimate)])) \<and>
       (debounce s' = None \<longrightarrow>
          fareEstimate (form s') = None \<or>
          (\<exists>estimate. written s' = written s @ [(B, estimate)] \<and>
             fareEstimate (form s') = Some estimate)))"
proof -
  from assms have calls: "calls_after_last_trigger B s s'"
    by (intro two_triggers_calls [of evs1 evs2 A B s s'])
  then obtain own where own: "own = [] \<or> own = [B]" and log: "answers_within own s s'"
    by (auto simp: calls_after_last_trigger_def split: option.splits)
  define ws where "ws = drop (length (written s)) (written s')"
  from log have "written s' = written s @ ws"
    unfolding ws_def answers_within_def by (metis append_take_drop_id)
  moreover from log own have "set (map fst ws) \<subseteq> set (inflight s) \<union> {B}"
    unfolding ws_def answers_within_def by auto
  moreover from log own have "length ws \<le> length (inflight s) + 1"
    unfolding ws_def answers_within_def by auto
  ultimately have third: "\<exists>ws. written s' = written s @ ws \<and>
       set (map fst ws) \<subseteq> set (inflight s) \<union> {B} \<and>
       length ws \<le> length (inflight s) + 1"
    by blast
  from calls have first: "issued s' = issued s \<or> issued s' = issued s @ [B]"
    and second: "debounce s' = None \<or> (\<exists>due. debounce s' = Some (due, B))"
    by (auto simp: calls_after_last_trigger_def split: option.splits)
  have fourth: "(written s' = written s \<or> (\<exists>estimate. written s' = written s @ [(B, estimate)])) \<and>
       (debounce s' = None \<longrightarrow>
          fareEstimate (form s') = None \<or>
          (\<exists>estimate. written s' = written s @ [(B, estimate)] \<and>
             fareEstimate (form s') = Some estimate))" if idle: "inflight s = []"
  proof -
    from assms idle have "after_last_trigger B s s'"
      by (intro two_triggers_debounced [of evs1 evs2 s A B s'])
    then show ?thesis
      unfolding after_last_trigger_def by auto
  qed
  from first second third fourth show ?thesis by blast
qed

theorem C3_debounce_witness:
  "est_run debounced_pair (initial_estimator sample_methods) = Some debounced_estimator \<and>
   inflight (initial_estimator sample_methods) = [] \<and>
   issued debounced_estimator = [request_to ''Bus Stand''] \<and>
   written debounced_estimator = [(request_to ''Bus Stand'', \<lparr>estimatedFare = ''120''\<rparr>)] \<and>
   debounce debounced_estimator = None \<and>
   fareEstimate (form debounced_estimator) = Some \<lparr>estimatedFare = ''120''\<rparr> \<and>
   est_run [Trigger (request_to ''Bus''), Wait 100, Trigger (request_to ''Bus Stand''), Wait 500,
            DebounceFires, EstimateResolved 1 \<lparr>estimatedFare = ''120''\<rparr>,
            EstimateResolved 0 \<lparr>estimatedFare = ''45''\<rparr>] inflight_estimator =
     Some stale_estimator \<and>
   inflight inflight_estimator = [request_to ''Fort''] \<and>
   issued stale_estimator = issued inflight_estimator @ [request_to ''Bus Stand''] \<and>
   debounce stale_estimator = None \<and>
   written stale_estimator =
     written inflight_estimator @
       [(request_to ''Bus Stand'', \<lparr>estimatedFare = ''120''\<rparr>),
        (request_to ''Fort'', \<lparr>estimatedFare = ''45''\<rparr>)]"
proof -
  have run: "est_run
      (Trigger (request_to ''Bus'') # [Wait 100] @ Trigger (request_to ''Bus Stand'') #
         [Wait 500, DebounceFires, EstimateResolved 0 \<lparr>estimatedFare = ''120''\<rparr>])
      (initial_estimator sample_methods) = Some debounced_estimator"
    using est_run_debounced_pair by (simp add: debounced_pair_def)
  have idle: "inflight (initial_estimator sample_methods) = []"
    by (simp add: initial_estimator_def)
  have before: "issued (initial_estimator sample_methods) = []"
    "written (initial_estimator sample_methods) = []"
    by (simp_all add: initial_estimator_def)
  have fired: "debounce debounced_estimator = None"
    by (simp add: debounced_estimator_def)
  have answered: "issued debounced_estimator \<noteq> []"
    by (simp add: debounced_estimator_def)
  have shown: "fareEstimate (form debounced_estimator) = Some \<lparr>estimatedFare = ''120''\<rparr>"
    by (simp add: debounced_estimator_def)
  from C3_debounce [OF _ _ _ run]
  have "(issued debounced_estimator = [] \<or> issued debounced_estimator = [request_to ''Bus Stand'']) \<and>
    (debounce debounced_estimator = None \<longrightarrow>
       fareEstimate (form debounced_estimator) = None \<or>
       (\<exists>estimate. written debounced_estimator = [(request_to ''Bus Stand'', estimate)] \<and>
          fareEstimate (form debounced_estimator) = Some estimate))"
    by (simp add: before idle)
  with fired answered shown have first:
    "issued debounced_estimator = [request_to ''Bus Stand''] \<and>
     written debounced_estimator = [(request_to ''Bus Stand'', \<lparr>estimatedFare = ''120''\<rparr>)]"
    by auto
  have busy: "inflight inflight_estimator = [request_to ''Fort'']"
    "issued inflight_estimator = [request_to ''Fort'']" "written inflight_estimator = []"
    by (simp_all add: inflight_estimator_def)
  have stale: "issued stale_estimator \<noteq> issued inflight_estimator"
    "debounce stale_estimator = None"
    "written stale_estimator =
       [(request_to ''Bus Stand'', \<lparr>estimatedFare = ''120''\<rparr>),
        (request_to ''Fort'', \<lparr>estimatedFare = ''45''\<rparr>)]"
    by (simp_all add: stale_estimator_def inflight_estimator_def)
  from C3_debounce [OF _ _ _ est_run_from_inflight]
  have "issued stale_estimator = issued inflight_estimator \<or>
    issued stale_estimator = issued inflight_estimator @ [request_to ''Bus Stand'']"
    by simp
  with stale(1) have second:
    "issued stale_estimator = issued inflight_estimator @ [request_to ''Bus Stand'']"
    by simp
  from est_run_from_inflight have run2:
    "est_run [Trigger (request_to ''Bus''), Wait 100, Trigger (request_to ''Bus Stand''), Wait 500,
            DebounceFires, EstimateResolved 1 \<lparr>estimatedFare = ''120''\<rparr>,
            EstimateResolved 0 \<lparr>estimatedFare = ''45''\<rparr>] inflight_estimator =
     Some stale_estimator"
    by simp
  from est_run_debounced_pair idle first fired shown run2 busy(1) second stale(2) stale(3) busy(3)
  show ?thesis by simp
qed

end
